theory Spec2Isabelle
  imports Complex_Main
begin

section \<open>Numbers, vectors and errors\<close>

text \<open>
  The interior point solver of \<open>GridCalEngine/Utils/IPS/ips.py\<close> computes with numpy
  arrays of floating-point numbers. An array entry is modelled as an exact real:
  rounding, infinities and NaN inside an array are not represented. Where the code
  would put a non-finite number into an array, the model stops with \<open>NonFinite\<close>;
  the last but one section shows that no call ends so.

  An exception of the Python code is a value of \<open>pyerror\<close>, and a function that may
  raise returns \<open>pyerror + 'a\<close>. \<open>External n\<close> is an exception raised by the
  evaluator callback or by the sparse solver of the library.
\<close>

type_synonym vec = "real list"

datatype pyerror =
    ValueError
  | IndexError
  | UnboundLocalError
  | NonFinite
  | External nat

definition ebind :: "pyerror + 'a \<Rightarrow> ('a \<Rightarrow> pyerror + 'b) \<Rightarrow> pyerror + 'b" where
  "ebind m k = (case m of Inl e \<Rightarrow> Inl e | Inr v \<Rightarrow> k v)"

text \<open>
  The barrier parameter \<open>gamma\<close> is the one scalar of the solver that a division by
  zero can reach (\<open>/ n_ineq\<close>). numpy divides a float64 by zero without raising: the
  quotient is NaN for \<open>0/0\<close> and an infinity otherwise. So \<open>gamma\<close> is a real, an
  infinity or NaN.
\<close>

datatype fnum = Fin real | PInf | NInf | NaN

definition np_true_divide :: "real \<Rightarrow> nat \<Rightarrow> fnum" where
  "np_true_divide a n =
     (if n \<noteq> 0 then Fin (a / real n)
      else if a = 0 then NaN
      else if 0 < a then PInf else NInf)"

text \<open>
  Python's \<open>max(a, t)\<close> keeps its first argument unless \<open>t > a\<close>, and every
  comparison with NaN is false.
\<close>

fun py_max :: "fnum \<Rightarrow> real \<Rightarrow> fnum" where
  "py_max (Fin a) t = (if a < t then Fin t else Fin a)"
| "py_max PInf t = PInf"
| "py_max NInf t = Fin t"
| "py_max NaN t = NaN"

text \<open>The comparisons \<open>a <= g\<close> and \<open>g >= t\<close> of a real with \<open>gamma\<close>.\<close>

fun le_fnum :: "real \<Rightarrow> fnum \<Rightarrow> bool" where
  "le_fnum a (Fin g) = (a \<le> g)"
| "le_fnum a PInf = True"
| "le_fnum a NInf = False"
| "le_fnum a NaN = False"

text \<open>\<open>gamma * e\<close>: a scalar times an array.\<close>

fun fnum_times :: "fnum \<Rightarrow> vec \<Rightarrow> pyerror + vec" where
  "fnum_times (Fin g) v = Inr (map (\<lambda>a. g * a) v)"
| "fnum_times g v = (if v = [] then Inr [] else Inl NonFinite)"

subsection \<open>numpy arrays of one dimension\<close>

text \<open>
  An elementwise operation of two arrays broadcasts an operand of length one and raises
  ValueError on any other difference of lengths.
\<close>

definition np_bin :: "(real \<Rightarrow> real \<Rightarrow> real) \<Rightarrow> vec \<Rightarrow> vec \<Rightarrow> pyerror + vec" where
  "np_bin f a b =
     (if length a = length b then Inr (map2 f a b)
      else if length a = 1 then Inr (map (\<lambda>y. f (hd a) y) b)
      else if length b = 1 then Inr (map (\<lambda>x. f x (hd b)) a)
      else Inl ValueError)"

text \<open>\<open>a += b\<close> writes into \<open>a\<close>: the result has the length of \<open>a\<close>.\<close>

definition np_iadd :: "vec \<Rightarrow> vec \<Rightarrow> pyerror + vec" where
  "np_iadd a b =
     (if length b = length a then Inr (map2 (+) a b)
      else if length b = 1 then Inr (map (\<lambda>x. x + hd b) a)
      else Inl ValueError)"

definition np_neg :: "vec \<Rightarrow> vec" where
  "np_neg a = map uminus a"

text \<open>\<open>a * s\<close> with a scalar \<open>s\<close>.\<close>

definition np_scale :: "vec \<Rightarrow> real \<Rightarrow> vec" where
  "np_scale a s = map (\<lambda>x. x * s) a"

text \<open>\<open>1.0 / z\<close>: a zero entry would give an infinity.\<close>

definition np_recip :: "vec \<Rightarrow> pyerror + vec" where
  "np_recip a = (if 0 \<in> set a then Inl NonFinite else Inr (map (\<lambda>x. 1 / x) a))"

text \<open>\<open>a @ b\<close> of two arrays: the dot product.\<close>

definition np_dot :: "vec \<Rightarrow> vec \<Rightarrow> pyerror + real" where
  "np_dot a b =
     (if length a = length b then Inr (sum_list (map2 (*) a b)) else Inl ValueError)"

definition np_ones :: "nat \<Rightarrow> vec" where
  "np_ones n = replicate n 1"

text \<open>\<open>a[i] = v\<close> with Python's indexing: a negative index counts from the end.\<close>

definition py_setitem :: "vec \<Rightarrow> int \<Rightarrow> real \<Rightarrow> pyerror + vec" where
  "py_setitem a i v =
     (let n = int (length a); j = (if i < 0 then n + i else i)
      in if 0 \<le> j \<and> j < n then Inr (a[nat j := v]) else Inl IndexError)"

subsection \<open>Sparse matrices\<close>

text \<open>
  A scipy sparse matrix is modelled by its shape and its entries; the compressed column
  storage is not represented. The operations raise ValueError on shapes that do not fit.
\<close>

record mat =
  nrows :: nat
  ncols :: nat
  entry :: "nat \<Rightarrow> nat \<Rightarrow> real"

definition sp_add :: "mat \<Rightarrow> mat \<Rightarrow> pyerror + mat" where
  "sp_add A B =
     (if nrows A = nrows B \<and> ncols A = ncols B
      then Inr \<lparr>nrows = nrows A, ncols = ncols A,
                entry = (\<lambda>i j. entry A i j + entry B i j)\<rparr>
      else Inl ValueError)"

definition sp_matmul :: "mat \<Rightarrow> mat \<Rightarrow> pyerror + mat" where
  "sp_matmul A B =
     (if ncols A = nrows B
      then Inr \<lparr>nrows = nrows A, ncols = ncols B,
                entry = (\<lambda>i j. sum_list (map (\<lambda>k. entry A i k * entry B k j) [0..<ncols A]))\<rparr>
      else Inl ValueError)"

definition sp_T :: "mat \<Rightarrow> mat" where
  "sp_T A = \<lparr>nrows = ncols A, ncols = nrows A, entry = (\<lambda>i j. entry A j i)\<rparr>"

definition sp_matvec :: "mat \<Rightarrow> vec \<Rightarrow> pyerror + vec" where
  "sp_matvec A v =
     (if ncols A = length v
      then Inr (map (\<lambda>i. sum_list (map (\<lambda>k. entry A i k * v ! k) [0..<ncols A])) [0..<nrows A])
      else Inl ValueError)"

text \<open>
  Modelled from the spec: \<open>diags\<close> of \<open>GridCalEngine/Utils/Sparse/csc.py\<close>, which is not
  among the source files. It "builds a sparse diagonal matrix from a dense vector"; the
  result is "a sparse square matrix of matching dimension".
\<close>

definition diags :: "vec \<Rightarrow> mat" where
  "diags v =
     \<lparr>nrows = length v, ncols = length v,
      entry = (\<lambda>i j. if i = j \<and> i < length v then v ! i else 0)\<rparr>"

text \<open>
  Modelled from the spec: \<open>pack_3_by_4\<close> of \<open>GridCalEngine/Utils/Sparse/csc.py\<close>, which
  is not among the source files. Given the block \<open>M\<close>, the equality Jacobian \<open>Gx\<close> and
  its transpose, it "assembles the saddle-point (KKT) linear system matrix" with the
  blocks \<open>M, Gx\<close> over \<open>Gx^T, 0\<close>. Blocks that do not fit side by side are taken to raise
  ValueError.
\<close>

definition pack_3_by_4 :: "mat \<Rightarrow> mat \<Rightarrow> mat \<Rightarrow> pyerror + mat" where
  "pack_3_by_4 A B C =
     (if nrows B = nrows A \<and> ncols C = ncols A
      then Inr \<lparr>nrows = nrows A + nrows C, ncols = ncols A + ncols B,
                entry = (\<lambda>i j.
                  if i < nrows A
                  then (if j < ncols A then entry A i j else entry B i (j - ncols A))
                  else (if j < ncols A then entry C (i - nrows A) j else 0))\<rparr>
      else Inl ValueError)"

section \<open>The fraction-to-boundary step\<close>

text \<open>
  \<^verbatim>\<open>
  def step_calculation(V, dV):
      alpha = 1.0
      for i in range(len(V)):
          if dV[i] < 0:
              alpha = min(alpha, -V[i] / dV[i])
      return min(0.9999995 * alpha, 1.0)
  \<close>
  The loop runs over the indices of \<open>V\<close>. Reading \<open>dV[i]\<close> past the end of \<open>dV\<close> is
  Python's IndexError (the compiled function does not check the bound; the model follows
  Python). The division is only reached with \<open>dV[i] < 0\<close>.
\<close>

fun step_loop :: "vec \<Rightarrow> vec \<Rightarrow> nat list \<Rightarrow> real \<Rightarrow> pyerror + real" where
  "step_loop V dV [] alpha = Inr alpha"
| "step_loop V dV (i # is) alpha =
     (if length dV \<le> i then Inl IndexError
      else if dV ! i < 0 then step_loop V dV is (min alpha (- (V ! i) / (dV ! i)))
      else step_loop V dV is alpha)"

definition step_calculation :: "vec \<Rightarrow> vec \<Rightarrow> pyerror + real" where
  "step_calculation V dV =
     ebind (step_loop V dV [0..<length V] 1) (\<lambda>alpha. Inr (min (0.9999995 * alpha) 1))"

text \<open>The ratios \<open>-V[i] / dV[i]\<close> of the components that decrease.\<close>

definition ratios :: "vec \<Rightarrow> vec \<Rightarrow> vec" where
  "ratios V dV = map (\<lambda>i. - (V ! i) / (dV ! i)) (filter (\<lambda>i. dV ! i < 0) [0..<length V])"

text \<open>
  The step as the specification words it: the bound \<open>m\<close> is the least ratio, or 1
  when no component decreases, and the step is \<open>min(1, 0.9999995 m)\<close>.
\<close>

definition spec_step :: "vec \<Rightarrow> vec \<Rightarrow> real" where
  "spec_step V dV =
     min 1 (0.9999995 * (if ratios V dV = [] then 1 else Min (set (ratios V dV))))"

section \<open>Splitting and the error of a step\<close>

text \<open>\<open>split(sol, n)\<close> returns \<open>sol[:n], sol[n:]\<close>.\<close>

definition split :: "vec \<Rightarrow> nat \<Rightarrow> vec \<times> vec" where
  "split sol n = (take n sol, drop n sol)"

text \<open>
  \<^verbatim>\<open>
  def calc_error(dx, dz, dmu, dlmbda):
      err = 0.0
      for arr in [dx, dz, dmu, dlmbda]:
          for i in range(len(arr)):
              v = abs(arr[i])
              if v > err:
                  err = v
      return err
  \<close>
\<close>

fun calc_error_arr :: "vec \<Rightarrow> real \<Rightarrow> real" where
  "calc_error_arr [] err = err"
| "calc_error_arr (a # arr) err = calc_error_arr arr (if \<bar>a\<bar> > err then \<bar>a\<bar> else err)"

definition calc_error :: "vec \<Rightarrow> vec \<Rightarrow> vec \<Rightarrow> vec \<Rightarrow> real" where
  "calc_error dx dz dmu dlmbda = fold calc_error_arr [dx, dz, dmu, dlmbda] 0"

section \<open>The evaluator's bundle, the solution and the solver's state\<close>

text \<open>
  The dataclass \<open>IpsFunctionReturn\<close>; the field \<open>f\<close> of the source is \<open>ret_f\<close> here,
  and so on, since a field of a record is a constant of the theory.
\<close>

record IpsFunctionReturn =
  ret_f :: real
  ret_G :: vec
  ret_H :: vec
  ret_fx :: vec
  ret_Gx :: mat
  ret_Hx :: mat
  ret_fxx :: mat
  ret_Gxx :: mat
  ret_Hxx :: mat
  ret_S :: "complex list"
  ret_Sf :: "complex list"
  ret_St :: "complex list"

text \<open>
  The dataclass \<open>IpsSolution\<close>. Its \<open>x\<close> is a reference to an array: an address of the
  store (see below).
\<close>

record IpsSolution =
  sol_x :: nat
  sol_error :: real
  sol_gamma :: fnum
  sol_lam :: vec
  sol_structs :: IpsFunctionReturn
  sol_converged :: bool
  sol_iterations :: int
  sol_error_evolution :: vec

text \<open>What the solver prints, as a list of events.\<close>

datatype event =
    PrintIteration int
  | PrintXFrame vec vec
  | PrintEqFrame vec vec
  | PrintIneqFrame vec vec vec vec
  | PrintGamma fnum
  | PrintErr real
  | PrintSolution
  | PrintX vec
  | PrintLam vec
  | PrintFobj real
  | PrintIterations int
  | PrintTime

text \<open>
  The local variables of \<open>interior_point_solver\<close>. The arrays that the caller can see
  live in a store, a list of arrays addressed by position: the caller's \<open>x0\<close> is an
  address, and \<open>x\<close> is the address of the copy the solver works on. The arrays \<open>lam\<close>,
  \<open>mu\<close> and \<open>z\<close> are created by the solver and held by value. \<open>ret\<close> is unbound
  (\<open>None\<close>) until the evaluator has been called. The caller's \<open>x0\<close> is an array
  that exists: \<open>x0 < length heap\<close>. What has been printed so far is carried next to
  the state.
\<close>

record ips_state =
  st_heap :: "vec list"
  st_x :: nat
  st_lam :: vec
  st_mu :: vec
  st_z :: vec
  st_z_inv :: mat
  st_mu_diag :: mat
  st_gamma :: fnum
  st_error :: real
  st_converged :: bool
  st_iter_counter :: int
  st_error_evolution :: vec
  st_ret :: "IpsFunctionReturn option"

type_synonym evaluator = "vec \<Rightarrow> vec \<Rightarrow> vec \<Rightarrow> pyerror + IpsFunctionReturn"

type_synonym solver = "mat \<Rightarrow> vec \<Rightarrow> pyerror + vec"

section \<open>One Newton step\<close>

text \<open>
  \<^verbatim>\<open>
  M = ret.fxx + ret.Gxx + ret.Hxx + ret.Hx @ z_inv @ mu_diag @ ret.Hx.T
  J = pack_3_by_4(M.tocsc(), ret.Gx.tocsc(), ret.Gx.T.tocsc())
  \<close>
\<close>

definition compose_jacobian :: "IpsFunctionReturn \<Rightarrow> mat \<Rightarrow> mat \<Rightarrow> pyerror + mat" where
  "compose_jacobian ret z_inv mu_diag =
     ebind (sp_add (ret_fxx ret) (ret_Gxx ret)) (\<lambda>a.
     ebind (sp_add a (ret_Hxx ret)) (\<lambda>b.
     ebind (sp_matmul (ret_Hx ret) z_inv) (\<lambda>c.
     ebind (sp_matmul c mu_diag) (\<lambda>d.
     ebind (sp_matmul d (sp_T (ret_Hx ret))) (\<lambda>h.
     ebind (sp_add b h) (\<lambda>M.
     pack_3_by_4 M (ret_Gx ret) (sp_T (ret_Gx ret))))))))"

text \<open>
  \<^verbatim>\<open>
  N = ret.fx + ret.Hx @ mu + ret.Hx @ z_inv @ (gamma * e + mu * ret.H) + ret.Gx @ lam
  r = - np.r_[N, ret.G]
  \<close>
\<close>

definition compose_residual ::
  "IpsFunctionReturn \<Rightarrow> mat \<Rightarrow> fnum \<Rightarrow> vec \<Rightarrow> vec \<Rightarrow> vec \<Rightarrow> pyerror + vec" where
  "compose_residual ret z_inv gamma e mu lam =
     ebind (sp_matvec (ret_Hx ret) mu) (\<lambda>a.
     ebind (np_bin (+) (ret_fx ret) a) (\<lambda>b.
     ebind (sp_matmul (ret_Hx ret) z_inv) (\<lambda>c.
     ebind (fnum_times gamma e) (\<lambda>ge.
     ebind (np_bin (*) mu (ret_H ret)) (\<lambda>mh.
     ebind (np_bin (+) ge mh) (\<lambda>w.
     ebind (sp_matvec c w) (\<lambda>d.
     ebind (np_bin (+) b d) (\<lambda>s.
     ebind (sp_matvec (ret_Gx ret) lam) (\<lambda>g.
     ebind (np_bin (+) s g) (\<lambda>N.
     Inr (np_neg (N @ ret_G ret))))))))))))"

text \<open>\<^verbatim>\<open>dz = -ret.H - z - ret.Hx.T @ dx\<close>\<close>

definition calc_dz :: "IpsFunctionReturn \<Rightarrow> vec \<Rightarrow> vec \<Rightarrow> pyerror + vec" where
  "calc_dz ret z dx =
     ebind (np_bin (-) (np_neg (ret_H ret)) z) (\<lambda>a.
     ebind (sp_matvec (sp_T (ret_Hx ret)) dx) (\<lambda>b.
     np_bin (-) a b))"

text \<open>\<^verbatim>\<open>dmu = -mu + z_inv @ (gamma * e - mu * dz)\<close>\<close>

definition calc_dmu :: "vec \<Rightarrow> mat \<Rightarrow> fnum \<Rightarrow> vec \<Rightarrow> vec \<Rightarrow> pyerror + vec" where
  "calc_dmu mu z_inv gamma e dz =
     ebind (fnum_times gamma e) (\<lambda>ge.
     ebind (np_bin (*) mu dz) (\<lambda>m.
     ebind (np_bin (-) ge m) (\<lambda>w.
     ebind (sp_matvec z_inv w) (\<lambda>v.
     np_bin (+) (np_neg mu) v))))"

text \<open>
  The numerical part of the loop body, from the call of the evaluator to
  \<open>converged = error <= gamma\<close>. It returns the new state and the increments
  \<open>dx, dz, dmu, dlam\<close>, which the diagnostic output reads. \<open>spsolve\<close> stands for
  \<open>scipy.sparse.linalg.spsolve\<close>, a function of the library.
\<close>

definition newton_step ::
  "evaluator \<Rightarrow> solver \<Rightarrow> nat \<Rightarrow> nat \<Rightarrow> real \<Rightarrow> ips_state
     \<Rightarrow> pyerror + (ips_state \<times> vec \<times> vec \<times> vec \<times> vec)" where
  "newton_step func spsolve n_x n_ineq tol st =
     ebind (func (st_heap st ! st_x st) (st_mu st) (st_lam st)) (\<lambda>ret.
     ebind (compose_jacobian ret (st_z_inv st) (st_mu_diag st)) (\<lambda>J.
     ebind (compose_residual ret (st_z_inv st) (st_gamma st) (np_ones n_ineq)
              (st_mu st) (st_lam st)) (\<lambda>r.
     ebind (spsolve J r) (\<lambda>sol.
     let dx = fst (split sol n_x); dlam = snd (split sol n_x) in
     ebind (calc_dz ret (st_z st) dx) (\<lambda>dz.
     ebind (calc_dmu (st_mu st) (st_z_inv st) (st_gamma st) (np_ones n_ineq) dz) (\<lambda>dmu.
     ebind (step_calculation (st_z st) dz) (\<lambda>alpha_p.
     ebind (step_calculation (st_mu st) dmu) (\<lambda>alpha_d.
     ebind (np_iadd (st_heap st ! st_x st) (np_scale dx alpha_p)) (\<lambda>x'.
     ebind (np_iadd (st_z st) (np_scale dz alpha_p)) (\<lambda>z'.
     ebind (np_iadd (st_lam st) (np_scale dlam alpha_d)) (\<lambda>lam'.
     ebind (np_iadd (st_mu st) (np_scale dmu alpha_d)) (\<lambda>mu'.
     ebind (np_dot mu' z') (\<lambda>mz.
     let gamma' = py_max (np_true_divide (0.1 * mz) n_ineq) tol;
         error' = calc_error dx dz dmu dlam in
     ebind (np_recip z') (\<lambda>rz.
     Inr (st\<lparr>st_heap := (st_heap st)[st_x st := x'],
              st_lam := lam', st_mu := mu', st_z := z',
              st_z_inv := diags rz, st_mu_diag := diags mu',
              st_gamma := gamma', st_error := error',
              st_converged := le_fnum error' gamma',
              st_ret := Some ret\<rparr>,
          dx, dz, dmu, dlam)))))))))))))))"

section \<open>The diagnostic output of an iteration\<close>

text \<open>
  \<^verbatim>\<open>
  if verbose > 1:
      print(f'Iteration: {iter_counter}', "-" * 80)
      if verbose > 2:
          x_df = pd.DataFrame(data={'x': x, 'dx': dx})
          eq_df = pd.DataFrame(data={'\<lambda>': lam, 'd\<lambda>': dlam})
          ineq_df = pd.DataFrame(data={'mu': mu, 'z': z, 'dmu': dmu, 'dz': dz})
          print("x:\n", x_df); print("EQ:\n", eq_df); print("INEQ:\n", ineq_df)
      print("\tGamma:", gamma)
      print("\tErr:", error)
  \<close>
  A data frame built from columns of different lengths raises ValueError.
\<close>

definition iteration_report ::
  "int \<Rightarrow> ips_state \<Rightarrow> vec \<Rightarrow> vec \<Rightarrow> vec \<Rightarrow> vec \<Rightarrow> pyerror + event list" where
  "iteration_report verbose st dx dz dmu dlam =
     (if verbose > 1 then
        ebind
          (if verbose > 2 then
             (if length (st_heap st ! st_x st) \<noteq> length dx then Inl ValueError
              else if length (st_lam st) \<noteq> length dlam then Inl ValueError
              else if \<not> (length (st_mu st) = length (st_z st)
                          \<and> length (st_z st) = length dmu \<and> length dmu = length dz)
                then Inl ValueError
              else Inr [PrintXFrame (st_heap st ! st_x st) dx,
                        PrintEqFrame (st_lam st) dlam,
                        PrintIneqFrame (st_mu st) (st_z st) dmu dz])
           else Inr [])
          (\<lambda>frames. Inr (PrintIteration (st_iter_counter st) # frames
                           @ [PrintGamma (st_gamma st), PrintErr (st_error st)]))
      else Inr [])"

section \<open>The loop and the solver\<close>

text \<open>
  The body of the \<open>while\<close> loop: the Newton step, the diagnostic output, and
  \<^verbatim>\<open>
  iter_counter += 1
  error_evolution[iter_counter] = error
  \<close>
\<close>

definition ips_iteration ::
  "evaluator \<Rightarrow> solver \<Rightarrow> nat \<Rightarrow> nat \<Rightarrow> real \<Rightarrow> int \<Rightarrow> ips_state \<times> event list
     \<Rightarrow> pyerror + ips_state \<times> event list" where
  "ips_iteration func spsolve n_x n_ineq tol verbose sp =
     ebind (newton_step func spsolve n_x n_ineq tol (fst sp)) (\<lambda>(st', dx, dz, dmu, dlam).
     ebind (iteration_report verbose st' dx dz dmu dlam) (\<lambda>printed.
     ebind (py_setitem (st_error_evolution st') (st_iter_counter st' + 1) (st_error st'))
       (\<lambda>ee.
     Inr (st'\<lparr>st_iter_counter := st_iter_counter st' + 1,
               st_error_evolution := ee\<rparr>,
          snd sp @ printed))))"

text \<open>
  The state at the head of the loop: lines 223 to 240 of the source.
  \<open>np.zeros(max_iter + 1)\<close> raises ValueError for a negative length, and
  \<open>error_evolution[0] = error\<close> raises IndexError on an empty array.
\<close>

definition ips_init :: "vec list \<Rightarrow> nat \<Rightarrow> nat \<Rightarrow> nat \<Rightarrow> int \<Rightarrow> pyerror + ips_state" where
  "ips_init heap x0 n_eq n_ineq max_iter =
     (let error = 10 ^ 20;
          gamma = Fin 1;
          lam = np_ones n_eq;
          mu = np_ones n_ineq;
          z = np_ones n_ineq
      in ebind (np_recip z) (\<lambda>rz.
         if max_iter + 1 < 0 then Inl ValueError
         else ebind (py_setitem (replicate (nat (max_iter + 1)) 0) 0 error) (\<lambda>ee.
         Inr \<lparr>st_heap = heap @ [heap ! x0], st_x = length heap,
              st_lam = lam, st_mu = mu, st_z = z,
              st_z_inv = diags rz, st_mu_diag = diags mu,
              st_gamma = gamma, st_error = error,
              st_converged = le_fnum error gamma,
              st_iter_counter = 0, st_error_evolution = ee,
              st_ret = None\<rparr>)))"

lemma ebind_Inr_iff: "ebind m k = Inr y \<longleftrightarrow> (\<exists>v. m = Inr v \<and> k v = Inr y)"
  by (cases m) (simp_all add: ebind_def)

lemma ebind_simps [simp]: "ebind (Inl e) k = Inl e" "ebind (Inr v) k = k v"
  by (simp_all add: ebind_def)

lemma ebindE:
  assumes "ebind m k = Inr y"
  obtains v where "m = Inr v" and "k v = Inr y"
  using assms by (auto simp: ebind_Inr_iff)

lemma newton_step_counter:
  assumes "newton_step func spsolve n_x n_ineq tol st = Inr (st', incs)"
  shows "st_iter_counter st' = st_iter_counter st"
  using assms unfolding newton_step_def Let_def
  by (elim ebindE) auto

lemma ips_iteration_counter:
  assumes "ips_iteration func spsolve n_x n_ineq tol verbose (st, out) = Inr (st', out')"
  shows "st_iter_counter st' = st_iter_counter st + 1"
proof -
  from assms obtain s1 dx dz dmu dlam where
    n: "newton_step func spsolve n_x n_ineq tol st = Inr (s1, dx, dz, dmu, dlam)"
    and c: "st_iter_counter st' = st_iter_counter s1 + 1"
    unfolding ips_iteration_def
    by (elim ebindE) (auto split: prod.splits elim!: ebindE)
  from newton_step_counter [OF n] c show ?thesis by simp
qed

text \<open>
  \<^verbatim>\<open>
  while not converged and iter_counter < max_iter:
      ...
  \<close>
\<close>

function ips_loop ::
  "evaluator \<Rightarrow> solver \<Rightarrow> nat \<Rightarrow> nat \<Rightarrow> int \<Rightarrow> real \<Rightarrow> int \<Rightarrow> ips_state \<times> event list
     \<Rightarrow> pyerror + ips_state \<times> event list" where
  "ips_loop func spsolve n_x n_ineq max_iter tol verbose sp =
     (if \<not> st_converged (fst sp) \<and> st_iter_counter (fst sp) < max_iter
      then (case ips_iteration func spsolve n_x n_ineq tol verbose sp of
              Inl e \<Rightarrow> Inl e
            | Inr sp' \<Rightarrow> ips_loop func spsolve n_x n_ineq max_iter tol verbose sp')
      else Inr sp)"
  by pat_completeness auto
termination
proof (relation "measure (\<lambda>(func, spsolve, n_x, n_ineq, max_iter, tol, verbose, sp).
                  nat (max_iter - st_iter_counter (fst sp)))")
  show "wf (measure (\<lambda>(func, spsolve, n_x, n_ineq, max_iter, tol, verbose, sp).
                  nat (max_iter - st_iter_counter (fst sp))))"
    by simp
next
  fix func :: evaluator and spsolve :: solver and n_x n_ineq :: nat and max_iter :: int
    and tol :: real and verbose :: int and sp sp' :: "ips_state \<times> event list"
  assume c: "\<not> st_converged (fst sp) \<and> st_iter_counter (fst sp) < max_iter"
    and i: "ips_iteration func spsolve n_x n_ineq tol verbose sp = Inr sp'"
  from i have "st_iter_counter (fst sp') = st_iter_counter (fst sp) + 1"
    using ips_iteration_counter [of func spsolve n_x n_ineq tol verbose "fst sp" "snd sp"
        "fst sp'" "snd sp'"]
    by simp
  with c show "((func, spsolve, n_x, n_ineq, max_iter, tol, verbose, sp'),
                (func, spsolve, n_x, n_ineq, max_iter, tol, verbose, sp))
        \<in> measure (\<lambda>(func, spsolve, n_x, n_ineq, max_iter, tol, verbose, sp).
                  nat (max_iter - st_iter_counter (fst sp)))"
    by simp
qed

declare ips_loop.simps [simp del]

text \<open>
  The printing after the loop:
  \<^verbatim>\<open>
  if verbose > 0:
      print(f'SOLUTION', "-" * 80)
      print("\tx:", x); print("\t\<lambda>:", lam); print("\tF.obj:", f)
      print("\tErr:", error); print(f'\tIterations: {iter_counter}')
      print('\tTime elapsed (s): ', END - START)
  \<close>
  where \<open>f\<close> is still the \<open>0.0\<close> of line 225.
\<close>

definition final_report :: "int \<Rightarrow> ips_state \<Rightarrow> event list" where
  "final_report verbose st =
     (if verbose > 0
      then [PrintSolution, PrintX (st_heap st ! st_x st), PrintLam (st_lam st),
            PrintFobj 0, PrintErr (st_error st), PrintIterations (st_iter_counter st),
            PrintTime]
      else [])"

text \<open>
  \<open>interior_point_solver(x0, n_x, n_eq, n_ineq, func, arg, max_iter, tol, verbose)\<close>.
  The model takes the store and returns it with the solution and the output; the
  arguments \<open>arg\<close> are part of \<open>func\<close>, and \<open>spsolve\<close> is the solver of the
  library. The counts \<open>n_x\<close>, \<open>n_eq\<close> and \<open>n_ineq\<close> are natural numbers;
  \<open>max_iter\<close> and \<open>verbose\<close> are Python integers. Reading the unbound \<open>ret\<close> in
  the \<open>return\<close> statement raises UnboundLocalError.
\<close>

definition interior_point_solver ::
  "vec list \<Rightarrow> nat \<Rightarrow> nat \<Rightarrow> nat \<Rightarrow> nat \<Rightarrow> evaluator \<Rightarrow> solver \<Rightarrow> int \<Rightarrow> real \<Rightarrow> int
     \<Rightarrow> pyerror + (IpsSolution \<times> vec list \<times> event list)" where
  "interior_point_solver heap x0 n_x n_eq n_ineq func spsolve max_iter tol verbose =
     ebind (ips_init heap x0 n_eq n_ineq max_iter) (\<lambda>st0.
     ebind (ips_loop func spsolve n_x n_ineq max_iter tol verbose (st0, [])) (\<lambda>(st, out).
     let printed = out @ final_report verbose st in
     case st_ret st of
       None \<Rightarrow> Inl UnboundLocalError
     | Some ret \<Rightarrow>
         Inr (\<lparr>sol_x = st_x st, sol_error = st_error st, sol_gamma = st_gamma st,
               sol_lam = st_lam st, sol_structs = ret,
               sol_converged = st_converged st, sol_iterations = st_iter_counter st,
               sol_error_evolution = st_error_evolution st\<rparr>,
              st_heap st, printed)))"

section \<open>The states the loop visits\<close>

text \<open>
  \<open>ips_reach \<dots> sp0 sp\<close>: the loop started in \<open>sp0\<close> is at its head in \<open>sp\<close>
  after some number of iterations, each entered because the loop condition held and
  each completed without an exception.
\<close>

inductive ips_reach ::
  "evaluator \<Rightarrow> solver \<Rightarrow> nat \<Rightarrow> nat \<Rightarrow> int \<Rightarrow> real \<Rightarrow> int \<Rightarrow> ips_state \<times> event list
     \<Rightarrow> ips_state \<times> event list \<Rightarrow> bool"
  for func :: evaluator and spsolve :: solver and n_x n_ineq :: nat and max_iter :: int
    and tol :: real and verbose :: int and sp0 :: "ips_state \<times> event list"
  where
    reach_start: "ips_reach func spsolve n_x n_ineq max_iter tol verbose sp0 sp0"
  | reach_iter:
      "ips_reach func spsolve n_x n_ineq max_iter tol verbose sp0 sp
       \<Longrightarrow> \<not> st_converged (fst sp) \<Longrightarrow> st_iter_counter (fst sp) < max_iter
       \<Longrightarrow> ips_iteration func spsolve n_x n_ineq tol verbose sp = Inr sp'
       \<Longrightarrow> ips_reach func spsolve n_x n_ineq max_iter tol verbose sp0 sp'"

text \<open>The slacks and the multipliers of the inequalities are \<open>n_ineq\<close> positive numbers.\<close>

definition positive_state :: "nat \<Rightarrow> ips_state \<Rightarrow> bool" where
  "positive_state n_ineq st \<longleftrightarrow>
     length (st_z st) = n_ineq \<and> length (st_mu st) = n_ineq
     \<and> list_all (\<lambda>a. 0 < a) (st_z st) \<and> list_all (\<lambda>a. 0 < a) (st_mu st)"

text \<open>
  What holds at the head of the loop in every state it visits: the cached matrices are
  those of the current \<open>z\<close> and \<open>mu\<close>; the counter is within its bounds and the
  trace has \<open>max_iter + 1\<close> entries; \<open>ret\<close> is bound once an iteration has run;
  \<open>converged\<close> is the last comparison of \<open>error\<close> with \<open>gamma\<close>; and \<open>gamma\<close> is 1
  (with \<open>error\<close> at \<open>1e20\<close>) before the first iteration, and afterwards NaN when
  there is no inequality and a real not below \<open>tol\<close> otherwise.
\<close>

definition loop_inv :: "nat \<Rightarrow> int \<Rightarrow> real \<Rightarrow> ips_state \<Rightarrow> bool" where
  "loop_inv n_ineq max_iter tol st \<longleftrightarrow>
     positive_state n_ineq st
     \<and> st_z_inv st = diags (map (\<lambda>a. 1 / a) (st_z st))
     \<and> st_mu_diag st = diags (st_mu st)
     \<and> 0 \<le> st_iter_counter st \<and> st_iter_counter st \<le> max_iter
     \<and> length (st_error_evolution st) = nat (max_iter + 1)
     \<and> (st_ret st = None \<longleftrightarrow> st_iter_counter st = 0)
     \<and> st_converged st = le_fnum (st_error st) (st_gamma st)
     \<and> (if st_iter_counter st = 0 then st_gamma st = Fin 1 \<and> st_error st = 10 ^ 20
         else if n_ineq = 0 then st_gamma st = NaN
         else (\<exists>g. st_gamma st = Fin g \<and> tol \<le> g))
     \<and> st_x st < length (st_heap st)"

section \<open>The contract on dimensions\<close>

text \<open>
  The bundle of an evaluator for \<open>n_x\<close> variables, \<open>n_eq\<close> equalities and \<open>n_ineq\<close>
  inequalities: \<open>G\<close> of length \<open>n_eq\<close>, \<open>H\<close> of length \<open>n_ineq\<close>, \<open>fx\<close> of length
  \<open>n_x\<close>, \<open>Gx\<close> of shape \<open>n_x \<times> n_eq\<close>, \<open>Hx\<close> of shape \<open>n_x \<times> n_ineq\<close>, and the
  three Hessians of shape \<open>n_x \<times> n_x\<close>.
\<close>

definition wf_ret :: "nat \<Rightarrow> nat \<Rightarrow> nat \<Rightarrow> IpsFunctionReturn \<Rightarrow> bool" where
  "wf_ret n_x n_eq n_ineq ret \<longleftrightarrow>
     length (ret_G ret) = n_eq \<and> length (ret_H ret) = n_ineq \<and> length (ret_fx ret) = n_x
     \<and> nrows (ret_Gx ret) = n_x \<and> ncols (ret_Gx ret) = n_eq
     \<and> nrows (ret_Hx ret) = n_x \<and> ncols (ret_Hx ret) = n_ineq
     \<and> nrows (ret_fxx ret) = n_x \<and> ncols (ret_fxx ret) = n_x
     \<and> nrows (ret_Gxx ret) = n_x \<and> ncols (ret_Gxx ret) = n_x
     \<and> nrows (ret_Hxx ret) = n_x \<and> ncols (ret_Hxx ret) = n_x"

text \<open>
  An evaluator that raises nothing and returns such a bundle at every point, and a
  solver that returns a vector of \<open>n\<close> entries for every system of \<open>n\<close> equations.
\<close>

definition wf_evaluator :: "nat \<Rightarrow> nat \<Rightarrow> nat \<Rightarrow> evaluator \<Rightarrow> bool" where
  "wf_evaluator n_x n_eq n_ineq func \<longleftrightarrow>
     (\<forall>x mu lam. length x = n_x \<and> length mu = n_ineq \<and> length lam = n_eq
        \<longrightarrow> (\<exists>ret. func x mu lam = Inr ret \<and> wf_ret n_x n_eq n_ineq ret))"

definition wf_solver :: "nat \<Rightarrow> solver \<Rightarrow> bool" where
  "wf_solver n spsolve \<longleftrightarrow>
     (\<forall>J r. nrows J = n \<and> ncols J = n \<and> length r = n
        \<longrightarrow> (\<exists>sol. spsolve J r = Inr sol \<and> length sol = n))"

section \<open>The increments and the update as the specification words them\<close>

text \<open>
  The specification gives the step in the notation of linear algebra:
  \<open>dz = -H - z - Hx\<^sup>T dx\<close>, \<open>dmu = -mu + diag(1/z) (gamma e - mu \<odot> dz)\<close>, and
  \<open>v += alpha dv\<close> for each of \<open>x\<close>, \<open>z\<close>, \<open>lam\<close> and \<open>mu\<close>. Written out by
  components, with \<open>e\<close> the vector of ones:
\<close>

definition spec_dz :: "vec \<Rightarrow> vec \<Rightarrow> mat \<Rightarrow> vec \<Rightarrow> vec" where
  "spec_dz H z Hx dx =
     map (\<lambda>i. - H ! i - z ! i - sum_list (map (\<lambda>j. entry Hx j i * dx ! j) [0..<length dx]))
       [0..<length z]"

definition spec_dmu :: "vec \<Rightarrow> vec \<Rightarrow> real \<Rightarrow> vec \<Rightarrow> vec" where
  "spec_dmu mu z g dz =
     map (\<lambda>i. - mu ! i + (1 / z ! i) * (g * 1 - mu ! i * dz ! i)) [0..<length mu]"

definition spec_update :: "vec \<Rightarrow> real \<Rightarrow> vec \<Rightarrow> vec" where
  "spec_update v alpha dv = map (\<lambda>i. v ! i + alpha * dv ! i) [0..<length v]"

text \<open>A result other than the error \<open>NonFinite\<close>, which only the model has.\<close>

definition representable :: "pyerror + 'a \<Rightarrow> bool" where
  "representable r \<longleftrightarrow> r \<noteq> Inl NonFinite"

section \<open>Two small problems\<close>

text \<open>
  Two problems with one variable, on which the theorems below are exercised. The first
  has one inequality: minimise \<open>(x - 2)\<^sup>2\<close> subject to \<open>x - 1 \<le> 0\<close>. The second has
  one equality and no inequality: minimise \<open>x\<^sup>2\<close> subject to \<open>x - 1 = 0\<close>. The
  Jacobians \<open>Gx\<close> and \<open>Hx\<close> have one row for each variable and one column for each
  constraint. The two solvers stand for \<open>spsolve\<close> on systems of one and of two
  equations (Cramer's rule).
\<close>

definition const_mat :: "nat \<Rightarrow> nat \<Rightarrow> real \<Rightarrow> mat" where
  "const_mat r c a = \<lparr>nrows = r, ncols = c, entry = (\<lambda>i j. a)\<rparr>"

definition qp_ineq :: evaluator where
  "qp_ineq x mu lam =
     Inr \<lparr>ret_f = (x ! 0 - 2)\<^sup>2, ret_G = [], ret_H = [x ! 0 - 1],
          ret_fx = [2 * (x ! 0 - 2)], ret_Gx = const_mat 1 0 0, ret_Hx = const_mat 1 1 1,
          ret_fxx = const_mat 1 1 2, ret_Gxx = const_mat 1 1 0, ret_Hxx = const_mat 1 1 0,
          ret_S = [], ret_Sf = [], ret_St = []\<rparr>"

definition qp_eq :: evaluator where
  "qp_eq x mu lam =
     Inr \<lparr>ret_f = (x ! 0)\<^sup>2, ret_G = [x ! 0 - 1], ret_H = [],
          ret_fx = [2 * x ! 0], ret_Gx = const_mat 1 1 1, ret_Hx = const_mat 1 0 0,
          ret_fxx = const_mat 1 1 2, ret_Gxx = const_mat 1 1 0, ret_Hxx = const_mat 1 1 0,
          ret_S = [], ret_Sf = [], ret_St = []\<rparr>"

definition solve_1x1 :: solver where
  "solve_1x1 J r =
     (if nrows J = 1 \<and> ncols J = 1 \<and> length r = 1
      then Inr [r ! 0 / entry J 0 0] else Inl ValueError)"

definition solve_2x2 :: solver where
  "solve_2x2 J r =
     (if nrows J = 2 \<and> ncols J = 2 \<and> length r = 2
      then (let a = entry J 0 0; b = entry J 0 1; c = entry J 1 0; d = entry J 1 1;
                det = a * d - b * c
            in Inr [(r ! 0 * d - b * r ! 1) / det, (a * r ! 1 - c * r ! 0) / det])
      else Inl ValueError)"

section \<open>The step of \<open>step_calculation\<close>\<close>

lemma step_loop_Min:
  assumes "\<forall>i\<in>set js. i < length dV"
  shows "step_loop V dV js alpha =
         Inr (Min (insert alpha
                (set (map (\<lambda>i. - (V ! i) / (dV ! i)) (filter (\<lambda>i. dV ! i < 0) js)))))"
  using assms
proof (induction js arbitrary: alpha)
  case Nil
  then show ?case by simp
next
  case (Cons j js)
  let ?S = "set (map (\<lambda>i. - (V ! i) / (dV ! i)) (filter (\<lambda>i. dV ! i < 0) js))"
  have fin: "finite ?S" by simp
  show ?case
  proof (cases "dV ! j < 0")
    case True
    have "Min (insert (min alpha (- (V ! j) / (dV ! j))) ?S)
          = Min (insert alpha (insert (- (V ! j) / (dV ! j)) ?S))"
      using fin by (cases "?S = {}") (simp_all add: min.assoc)
    with True Cons show ?thesis by simp
  next
    case False
    with Cons show ?thesis by simp
  qed
qed

lemma safety_factor_le:
  fixes m :: real
  assumes "m \<le> 1"
  shows "min (0.9999995 * m) 1 = 0.9999995 * m"
    and "min 1 (0.9999995 * m) = 0.9999995 * m"
    and "0.9999995 * m \<le> 0.9999995"
  using assms by (auto simp: min_def)

lemma step_loop_in_range:
  assumes "step_loop V dV js alpha = Inr r"
  shows "\<forall>i\<in>set js. i < length dV"
  using assms
  by (induction js arbitrary: alpha) (auto split: if_splits)

lemma step_calculation_length:
  assumes "step_calculation V dV = Inr alpha"
  shows "length V \<le> length dV"
proof -
  from assms obtain r where "step_loop V dV [0..<length V] 1 = Inr r"
    unfolding step_calculation_def by (elim ebindE)
  from step_loop_in_range [OF this] show ?thesis
    by (cases "length V") (auto simp: Suc_le_eq)
qed

lemma step_calculation_value:
  assumes "length V \<le> length dV"
  shows "step_calculation V dV = Inr (0.9999995 * Min (insert 1 (set (ratios V dV))))"
proof -
  define m where "m = Min (insert 1 (set (ratios V dV)))"
  have "\<forall>i\<in>set [0..<length V]. i < length dV"
    using assms by simp
  from step_loop_Min [OF this, of V 1]
  have l: "step_loop V dV [0..<length V] 1 = Inr m"
    by (simp add: ratios_def m_def)
  have "m \<le> 1"
    unfolding m_def by (rule Min_le) simp_all
  then have "min (0.9999995 * m) 1 = 0.9999995 * m"
    by (rule safety_factor_le)
  with l have "step_calculation V dV = Inr (0.9999995 * m)"
    unfolding step_calculation_def by (simp only: ebind_simps)
  then show ?thesis by (simp only: m_def)
qed

text \<open>
  C1 (as amended). For \<open>V\<close> and \<open>dV\<close> of the same length, \<open>step_calculation(V, dV)\<close>
  returns \<open>min(1, 0.9999995 m)\<close> where \<open>m\<close> is the least of 1 and the ratios
  \<open>-V[i] / dV[i]\<close> of the components with \<open>dV[i] < 0\<close>: the bound is capped at 1
  before the safety factor is applied, so the step is \<open>0.9999995 m\<close> and never more
  than 0.9999995.
\<close>

theorem step_calculation_capped:
  assumes "length dV = length V"
  shows "step_calculation V dV = Inr (min 1 (0.9999995 * Min (insert 1 (set (ratios V dV)))))
         \<and> min 1 (0.9999995 * Min (insert 1 (set (ratios V dV))))
             = 0.9999995 * Min (insert 1 (set (ratios V dV)))
         \<and> 0.9999995 * Min (insert 1 (set (ratios V dV))) \<le> 0.9999995"
proof -
  define m where "m = Min (insert 1 (set (ratios V dV)))"
  have m: "m \<le> 1"
    unfolding m_def by (rule Min_le) simp_all
  have "step_calculation V dV = Inr (0.9999995 * m)"
    using step_calculation_value [of V dV] assms by (simp only: m_def order_refl)
  then have "step_calculation V dV = Inr (min 1 (0.9999995 * m))
         \<and> min 1 (0.9999995 * m) = 0.9999995 * m
         \<and> 0.9999995 * m \<le> 0.9999995"
    using safety_factor_le [OF m] by (simp only: simp_thms)
  then show ?thesis by (simp only: m_def)
qed

theorem step_calculation_capped_witness:
  "length [- 0.5, 1 :: real] = length [1, 2 :: real]
   \<and> step_calculation [1, 2] [- 0.5, 1] = Inr 0.9999995"
  using step_calculation_capped [of "[- 0.5, 1]" "[1, 2]"]
  by (simp add: ratios_def upt_rec)

text \<open>
  The claim C1 as the specification states it fails at its own example: for
  \<open>V = [1, 2]\<close> and \<open>dV = [-0.5, 1]\<close> the specification's step is 1, and the code
  returns 0.9999995.
\<close>

theorem step_calculation_spec_counterexample:
  "step_calculation [1, 2] [- 0.5, 1] = Inr 0.9999995
   \<and> spec_step [1, 2] [- 0.5, 1] = 1
   \<and> step_calculation [1, 2] [- 0.5, 1] \<noteq> Inr (spec_step [1, 2] [- 0.5, 1])"
  by (simp add: step_calculation_def spec_step_def ratios_def upt_rec)

section \<open>The state at the head of the loop\<close>

lemma np_recip_ones [simp]: "np_recip (np_ones n) = Inr (np_ones n)"
  by (simp add: np_recip_def np_ones_def)

lemma ips_init_nonneg:
  assumes "0 \<le> max_iter"
  shows "ips_init heap x0 n_eq n_ineq max_iter =
     Inr \<lparr>st_heap = heap @ [heap ! x0], st_x = length heap,
          st_lam = np_ones n_eq, st_mu = np_ones n_ineq, st_z = np_ones n_ineq,
          st_z_inv = diags (np_ones n_ineq), st_mu_diag = diags (np_ones n_ineq),
          st_gamma = Fin 1, st_error = 10 ^ 20, st_converged = False,
          st_iter_counter = 0,
          st_error_evolution = (replicate (nat (max_iter + 1)) 0)[0 := 10 ^ 20],
          st_ret = None\<rparr>"
  using assms by (simp add: ips_init_def py_setitem_def Let_def)

lemma ips_init_negative:
  assumes "max_iter < 0"
  shows "ips_init heap x0 n_eq n_ineq max_iter =
         Inl (if max_iter = - 1 then IndexError else ValueError)"
  using assms by (auto simp: ips_init_def py_setitem_def Let_def)

text \<open>
  C10 (as amended). With \<open>max_iter = 0\<close> the loop body never runs, \<open>ret\<close> is never
  assigned, and the call fails with UnboundLocalError at the \<open>return\<close> statement. With
  a negative \<open>max_iter\<close> the call fails before the loop: \<open>np.zeros(max_iter + 1)\<close>
  raises ValueError for \<open>max_iter < -1\<close>, and \<open>error_evolution[0] = error\<close> raises
  IndexError for \<open>max_iter = -1\<close>. In no case is a solution returned.
\<close>

theorem no_iteration_no_solution:
  assumes "max_iter \<le> 0"
  shows "interior_point_solver heap x0 n_x n_eq n_ineq func spsolve max_iter tol verbose =
         Inl (if max_iter = 0 then UnboundLocalError
              else if max_iter = - 1 then IndexError else ValueError)"
proof (cases "max_iter = 0")
  case True
  then show ?thesis
    by (simp add: interior_point_solver_def ips_init_nonneg ips_loop.simps)
next
  case False
  with assms have "max_iter < 0" by simp
  from ips_init_negative [OF this] False show ?thesis
    by (simp add: interior_point_solver_def)
qed

theorem no_iteration_no_solution_witness:
  "(0 :: int) \<le> 0
   \<and> interior_point_solver [[0]] 0 1 0 1 qp_ineq solve_1x1 0 (1 / 10 ^ 6) 0
       = Inl UnboundLocalError"
  using no_iteration_no_solution [of 0 "[[0]]" 0 1 0 1 qp_ineq solve_1x1 "1 / 10 ^ 6" 0]
  by simp

text \<open>
  The claim C10 as stated fails for \<open>max_iter = -1\<close>: the error is IndexError, raised
  at line 240, not UnboundLocalError at the \<open>return\<close> statement.
\<close>

theorem negative_max_iter_counterexample:
  "interior_point_solver [[0]] 0 1 0 1 qp_ineq solve_1x1 (- 1) (1 / 10 ^ 6) 0
     = Inl IndexError
   \<and> IndexError \<noteq> UnboundLocalError"
proof -
  have "ips_init [[0]] 0 0 1 (- 1) = Inl IndexError"
    using ips_init_negative [of "- 1" "[[0]]" 0 0 1] by simp
  then show ?thesis
    by (simp add: interior_point_solver_def)
qed

section \<open>The step keeps a positive vector positive\<close>

lemma np_iadd_length:
  assumes "np_iadd a b = Inr c"
  shows "length c = length a"
  using assms by (auto simp: np_iadd_def split: if_splits)

lemma np_iadd_nth:
  assumes "np_iadd a b = Inr c" and "length a \<le> length b" and "i < length a"
  shows "c ! i = a ! i + b ! i"
  using assms by (auto simp: np_iadd_def split: if_splits)

lemma ratios_positive:
  assumes "\<forall>a\<in>set V. 0 < a" and "r \<in> set (ratios V dV)"
  shows "0 < r"
proof -
  from assms(2) obtain i where i: "i < length V" "dV ! i < 0" "r = - (V ! i) / (dV ! i)"
    by (auto simp: ratios_def)
  from assms(1) i(1) have "0 < V ! i" by simp
  with i show ?thesis by (simp add: divide_pos_neg)
qed

lemma step_keeps_positive:
  assumes pos: "\<forall>a\<in>set V. 0 < a"
    and st: "step_calculation V dV = Inr alpha"
    and i: "i < length V"
  shows "0 < V ! i + dV ! i * alpha"
proof -
  define m where "m = Min (insert 1 (set (ratios V dV)))"
  have len: "length V \<le> length dV"
    using st by (rule step_calculation_length)
  from step_calculation_value [OF len] st have alpha: "alpha = 0.9999995 * m"
    by (simp add: m_def)
  have "m \<in> insert 1 (set (ratios V dV))"
    unfolding m_def by (rule Min_in) simp_all
  then have m_pos: "0 < m"
    using ratios_positive [OF pos] by auto
  then have a_pos: "0 < alpha" and a_lt: "alpha < m"
    by (simp_all add: alpha)
  from pos i have Vi: "0 < V ! i" by simp
  show ?thesis
  proof (cases "dV ! i < 0")
    case False
    then have "0 \<le> dV ! i * alpha"
      using a_pos by simp
    with Vi show ?thesis by simp
  next
    case True
    with i have "- (V ! i) / (dV ! i) \<in> set (ratios V dV)"
      by (auto simp: ratios_def)
    then have "m \<le> - (V ! i) / (dV ! i)"
      unfolding m_def by (intro Min_le) simp_all
    with a_lt have "alpha < - (V ! i) / (dV ! i)" by simp
    with True have "alpha * dV ! i > - (V ! i)"
      by (simp add: pos_less_divide_eq neg_less_divide_eq field_simps)
    then show ?thesis by (simp add: mult.commute)
  qed
qed

lemma update_positive:
  assumes pos: "\<forall>a\<in>set V. 0 < a"
    and st: "step_calculation V dV = Inr alpha"
    and up: "np_iadd V (np_scale dV alpha) = Inr V'"
  shows "\<forall>a\<in>set V'. 0 < a"
proof -
  have len: "length V' = length V"
    using up by (rule np_iadd_length)
  have le: "length V \<le> length (np_scale dV alpha)"
    using step_calculation_length [OF st] by (simp add: np_scale_def)
  have "0 < V' ! i" if "i < length V'" for i
  proof -
    from that len have i: "i < length V" by simp
    with le have "i < length dV" by (simp add: np_scale_def)
    then have "np_scale dV alpha ! i = dV ! i * alpha"
      by (simp add: np_scale_def)
    with np_iadd_nth [OF up le i] step_keeps_positive [OF pos st i]
    show ?thesis by simp
  qed
  then show ?thesis
    by (simp add: all_set_conv_all_nth)
qed

section \<open>What a Newton step and an iteration compute\<close>

lemma newton_stepE:
  assumes "newton_step func spsolve n_x n_ineq tol st = Inr (st', dx, dz, dmu, dlam)"
  obtains ret J r sol alpha_p alpha_d x' z' lam' mu' mz rz where
    "func (st_heap st ! st_x st) (st_mu st) (st_lam st) = Inr ret"
    "compose_jacobian ret (st_z_inv st) (st_mu_diag st) = Inr J"
    "compose_residual ret (st_z_inv st) (st_gamma st) (np_ones n_ineq) (st_mu st) (st_lam st)
       = Inr r"
    "spsolve J r = Inr sol"
    "dx = take n_x sol" "dlam = drop n_x sol"
    "calc_dz ret (st_z st) dx = Inr dz"
    "calc_dmu (st_mu st) (st_z_inv st) (st_gamma st) (np_ones n_ineq) dz = Inr dmu"
    "step_calculation (st_z st) dz = Inr alpha_p"
    "step_calculation (st_mu st) dmu = Inr alpha_d"
    "np_iadd (st_heap st ! st_x st) (np_scale dx alpha_p) = Inr x'"
    "np_iadd (st_z st) (np_scale dz alpha_p) = Inr z'"
    "np_iadd (st_lam st) (np_scale dlam alpha_d) = Inr lam'"
    "np_iadd (st_mu st) (np_scale dmu alpha_d) = Inr mu'"
    "np_dot mu' z' = Inr mz"
    "np_recip z' = Inr rz"
    "st' = st\<lparr>st_heap := (st_heap st)[st_x st := x'],
              st_lam := lam', st_mu := mu', st_z := z',
              st_z_inv := diags rz, st_mu_diag := diags mu',
              st_gamma := py_max (np_true_divide (0.1 * mz) n_ineq) tol,
              st_error := calc_error dx dz dmu dlam,
              st_converged := le_fnum (calc_error dx dz dmu dlam)
                                (py_max (np_true_divide (0.1 * mz) n_ineq) tol),
              st_ret := Some ret\<rparr>"
  using assms unfolding newton_step_def Let_def split_def
  by (elim ebindE) auto

lemma ips_iterationE:
  assumes "ips_iteration func spsolve n_x n_ineq tol verbose (st, out) = Inr (st', out')"
  obtains s1 dx dz dmu dlam printed ee where
    "newton_step func spsolve n_x n_ineq tol st = Inr (s1, dx, dz, dmu, dlam)"
    "iteration_report verbose s1 dx dz dmu dlam = Inr printed"
    "py_setitem (st_error_evolution s1) (st_iter_counter s1 + 1) (st_error s1) = Inr ee"
    "st' = s1\<lparr>st_iter_counter := st_iter_counter s1 + 1, st_error_evolution := ee\<rparr>"
    "out' = out @ printed"
  using assms unfolding ips_iteration_def
  by (elim ebindE) (auto split: prod.splits elim!: ebindE)


section \<open>The loop and the states it visits\<close>

lemma ips_reach_first:
  assumes "ips_reach func spsolve n_x n_ineq max_iter tol verbose sp1 sp2"
    and "\<not> st_converged (fst sp)" and "st_iter_counter (fst sp) < max_iter"
    and "ips_iteration func spsolve n_x n_ineq tol verbose sp = Inr sp1"
  shows "ips_reach func spsolve n_x n_ineq max_iter tol verbose sp sp2"
  using assms
proof (induction rule: ips_reach.induct)
  case reach_start
  from ips_reach.reach_start reach_start show ?case
    by (rule ips_reach.reach_iter)
next
  case (reach_iter sp' sp'')
  have "ips_reach func spsolve n_x n_ineq max_iter tol verbose sp sp'"
    using reach_iter.IH reach_iter.prems by simp
  from this reach_iter.hyps(2,3,4) show ?case
    by (rule ips_reach.reach_iter)
qed

lemma ips_loop_reach:
  assumes "ips_loop func spsolve n_x n_ineq max_iter tol verbose sp = Inr sp'"
  shows "ips_reach func spsolve n_x n_ineq max_iter tol verbose sp sp'
         \<and> (st_converged (fst sp') \<or> max_iter \<le> st_iter_counter (fst sp'))"
  using assms
proof (induction func spsolve n_x n_ineq max_iter tol verbose sp rule: ips_loop.induct)
  case (1 func spsolve n_x n_ineq max_iter tol verbose sp)
  show ?case
  proof (cases "\<not> st_converged (fst sp) \<and> st_iter_counter (fst sp) < max_iter")
    case False
    with "1.prems" have "sp' = sp"
      by (simp add: ips_loop.simps)
    with False show ?thesis
      by (auto intro: ips_reach.reach_start)
  next
    case True
    with "1.prems" obtain sp1 where
      it: "ips_iteration func spsolve n_x n_ineq tol verbose sp = Inr sp1"
      and lp: "ips_loop func spsolve n_x n_ineq max_iter tol verbose sp1 = Inr sp'"
      by (subst (asm) ips_loop.simps) (auto split: sum.splits)
    from "1.IH" [OF True it lp]
    have r: "ips_reach func spsolve n_x n_ineq max_iter tol verbose sp1 sp'"
      and f: "st_converged (fst sp') \<or> max_iter \<le> st_iter_counter (fst sp')"
      by simp_all
    from ips_reach_first [OF r _ _ it] True f show ?thesis
      by simp
  qed
qed

section \<open>Positivity of the slacks and the multipliers\<close>

lemma ips_init_positive:
  assumes "ips_init heap x0 n_eq n_ineq max_iter = Inr st0"
  shows "positive_state n_ineq st0"
proof (cases "0 \<le> max_iter")
  case True
  from ips_init_nonneg [OF True] assms show ?thesis
    by (auto simp: positive_state_def np_ones_def list_all_iff)
next
  case False
  then have "max_iter < 0" by simp
  from ips_init_negative [OF this] assms show ?thesis
    by simp
qed

lemma newton_step_positive:
  assumes "positive_state n_ineq st"
    and "newton_step func spsolve n_x n_ineq tol st = Inr (st', dx, dz, dmu, dlam)"
  shows "positive_state n_ineq st'"
proof -
  obtain alpha_p alpha_d z' mu' where
    sp: "step_calculation (st_z st) dz = Inr alpha_p"
    and sd: "step_calculation (st_mu st) dmu = Inr alpha_d"
    and uz: "np_iadd (st_z st) (np_scale dz alpha_p) = Inr z'"
    and um: "np_iadd (st_mu st) (np_scale dmu alpha_d) = Inr mu'"
    and z: "st_z st' = z'" and mu: "st_mu st' = mu'"
  proof (rule newton_stepE [OF assms(2)])
    fix ret J r sol alpha_p alpha_d x' z' lam' mu' mz rz
    assume "step_calculation (st_z st) dz = Inr alpha_p"
      "step_calculation (st_mu st) dmu = Inr alpha_d"
      "np_iadd (st_z st) (np_scale dz alpha_p) = Inr z'"
      "np_iadd (st_mu st) (np_scale dmu alpha_d) = Inr mu'"
      "st' = st\<lparr>st_heap := (st_heap st)[st_x st := x'],
              st_lam := lam', st_mu := mu', st_z := z',
              st_z_inv := diags rz, st_mu_diag := diags mu',
              st_gamma := py_max (np_true_divide (0.1 * mz) n_ineq) tol,
              st_error := calc_error dx dz dmu dlam,
              st_converged := le_fnum (calc_error dx dz dmu dlam)
                                (py_max (np_true_divide (0.1 * mz) n_ineq) tol),
              st_ret := Some ret\<rparr>"
    then show thesis
      by (intro that [of alpha_p alpha_d z' mu']) simp_all
  qed
  from assms(1) have pz: "\<forall>a\<in>set (st_z st). 0 < a" and pm: "\<forall>a\<in>set (st_mu st). 0 < a"
    by (simp_all add: positive_state_def list_all_iff)
  from update_positive [OF pz sp uz] update_positive [OF pm sd um]
    np_iadd_length [OF uz] np_iadd_length [OF um] assms(1) z mu
  show ?thesis
    by (simp add: positive_state_def list_all_iff)
qed






lemmas ips_eval =
  ips_iteration_def newton_step_def compose_jacobian_def compose_residual_def
  calc_dz_def calc_dmu_def step_calculation_def iteration_report_def final_report_def
  np_bin_def np_iadd_def np_neg_def np_scale_def np_recip_def np_dot_def np_ones_def
  py_setitem_def sp_add_def sp_matmul_def sp_T_def sp_matvec_def diags_def
  pack_3_by_4_def split_def calc_error_def np_true_divide_def const_mat_def
  qp_ineq_def qp_eq_def solve_1x1_def solve_2x2_def Let_def upt_rec



section \<open>The invariant of the loop\<close>

lemma np_recip_positive:
  assumes "\<forall>a\<in>set v. (0::real) < a"
  shows "np_recip v = Inr (map (\<lambda>a. 1 / a) v)"
  using assms by (auto simp: np_recip_def)

lemma np_recip_value:
  assumes "np_recip v = Inr r"
  shows "r = map (\<lambda>a. 1 / a) v"
  using assms by (auto simp: np_recip_def split: if_splits)

lemma ips_init_inv:
  assumes "ips_init heap x0 n_eq n_ineq max_iter = Inr st0"
  shows "loop_inv n_ineq max_iter tol st0"
proof (cases "0 \<le> max_iter")
  case True
  have "map (\<lambda>a. 1 / a) (np_ones n_ineq) = np_ones n_ineq"
    by (simp add: np_ones_def)
  with ips_init_nonneg [OF True, of heap x0 n_eq n_ineq] assms
    ips_init_positive [OF assms] True
  show ?thesis
    by (auto simp: loop_inv_def)
next
  case False
  then have "max_iter < 0" by simp
  from ips_init_negative [OF this] assms show ?thesis
    by simp
qed

lemma newton_step_gamma:
  assumes p: "positive_state n_ineq st"
    and n: "newton_step func spsolve n_x n_ineq tol st = Inr (st', dx, dz, dmu, dlam)"
  shows "if n_ineq = 0 then st_gamma st' = NaN else (\<exists>g. st_gamma st' = Fin g \<and> tol \<le> g)"
proof -
  obtain mz where d: "np_dot (st_mu st') (st_z st') = Inr mz"
    and g: "st_gamma st' = py_max (np_true_divide (0.1 * mz) n_ineq) tol"
    by (rule newton_stepE [OF n]) simp
  from newton_step_positive [OF p n] have l: "length (st_mu st') = n_ineq"
    by (simp add: positive_state_def)
  show ?thesis
  proof (cases "n_ineq = 0")
    case True
    with l d have "mz = 0"
      by (auto simp: np_dot_def split: if_splits)
    with True g show ?thesis
      by (simp add: np_true_divide_def)
  next
    case False
    with g show ?thesis
      by (auto simp: np_true_divide_def)
  qed
qed

lemma newton_step_inv:
  assumes i: "loop_inv n_ineq max_iter tol st"
    and n: "newton_step func spsolve n_x n_ineq tol st = Inr (st', dx, dz, dmu, dlam)"
  shows "positive_state n_ineq st'"
    and "st_z_inv st' = diags (map (\<lambda>a. 1 / a) (st_z st'))"
    and "st_mu_diag st' = diags (st_mu st')"
    and "st_iter_counter st' = st_iter_counter st"
    and "st_error_evolution st' = st_error_evolution st"
    and "st_ret st' \<noteq> None"
    and "st_converged st' = le_fnum (st_error st') (st_gamma st')"
    and "if n_ineq = 0 then st_gamma st' = NaN else (\<exists>g. st_gamma st' = Fin g \<and> tol \<le> g)"
    and "st_x st' < length (st_heap st')"
proof -
  from i have p: "positive_state n_ineq st" and x: "st_x st < length (st_heap st)"
    by (simp_all add: loop_inv_def)
  show "positive_state n_ineq st'"
    using p n by (rule newton_step_positive)
  show "if n_ineq = 0 then st_gamma st' = NaN else (\<exists>g. st_gamma st' = Fin g \<and> tol \<le> g)"
    using p n by (rule newton_step_gamma)
  show "st_z_inv st' = diags (map (\<lambda>a. 1 / a) (st_z st'))"
    by (rule newton_stepE [OF n]) (auto dest: np_recip_value)
  show "st_mu_diag st' = diags (st_mu st')"
    by (rule newton_stepE [OF n]) simp
  show "st_iter_counter st' = st_iter_counter st"
    by (rule newton_stepE [OF n]) simp
  show "st_error_evolution st' = st_error_evolution st"
    by (rule newton_stepE [OF n]) simp
  show "st_ret st' \<noteq> None"
    by (rule newton_stepE [OF n]) simp
  show "st_converged st' = le_fnum (st_error st') (st_gamma st')"
    by (rule newton_stepE [OF n]) simp
  show "st_x st' < length (st_heap st')"
    using x by (rule_tac newton_stepE [OF n]) simp
qed

lemma ips_iteration_inv:
  assumes i: "loop_inv n_ineq max_iter tol (fst sp)"
    and c: "st_iter_counter (fst sp) < max_iter"
    and it: "ips_iteration func spsolve n_x n_ineq tol verbose sp = Inr sp'"
  shows "loop_inv n_ineq max_iter tol (fst sp')"
proof -
  from it have "ips_iteration func spsolve n_x n_ineq tol verbose (fst sp, snd sp)
                = Inr (fst sp', snd sp')"
    by simp
  then obtain s1 dx dz dmu dlam ee where
    n: "newton_step func spsolve n_x n_ineq tol (fst sp) = Inr (s1, dx, dz, dmu, dlam)"
    and e: "py_setitem (st_error_evolution s1) (st_iter_counter s1 + 1) (st_error s1) = Inr ee"
    and s: "fst sp' = s1\<lparr>st_iter_counter := st_iter_counter s1 + 1, st_error_evolution := ee\<rparr>"
    by (elim ips_iterationE)
  from e have le: "length ee = length (st_error_evolution s1)"
    by (auto simp: py_setitem_def Let_def split: if_splits)
  note f = newton_step_inv [OF i n]
  from i have b: "0 \<le> st_iter_counter (fst sp)"
    and l: "length (st_error_evolution (fst sp)) = nat (max_iter + 1)"
    by (simp_all add: loop_inv_def)
  from f c b l le s show ?thesis
    unfolding loop_inv_def
    by (simp add: positive_state_def)
qed

lemma ips_reach_inv:
  assumes "ips_reach func spsolve n_x n_ineq max_iter tol verbose sp0 sp"
    and "loop_inv n_ineq max_iter tol (fst sp0)"
  shows "loop_inv n_ineq max_iter tol (fst sp)"
  using assms
proof (induction rule: ips_reach.induct)
  case reach_start
  then show ?case by simp
next
  case (reach_iter sp sp')
  from reach_iter.IH [OF reach_iter.prems] reach_iter.hyps(3,4) show ?case
    by (rule ips_iteration_inv)
qed

lemma interior_point_solverE:
  assumes "interior_point_solver heap x0 n_x n_eq n_ineq func spsolve max_iter tol verbose
           = Inr (sol, heap', out)"
  obtains st0 st out0 ret where
    "ips_init heap x0 n_eq n_ineq max_iter = Inr st0"
    "ips_loop func spsolve n_x n_ineq max_iter tol verbose (st0, []) = Inr (st, out0)"
    "st_ret st = Some ret"
    "sol = \<lparr>sol_x = st_x st, sol_error = st_error st, sol_gamma = st_gamma st,
            sol_lam = st_lam st, sol_structs = ret,
            sol_converged = st_converged st, sol_iterations = st_iter_counter st,
            sol_error_evolution = st_error_evolution st\<rparr>"
    "heap' = st_heap st"
    "out = out0 @ final_report verbose st"
  using assms unfolding interior_point_solver_def Let_def
  by (elim ebindE) (auto split: prod.splits option.splits)

lemma solution_state:
  assumes "interior_point_solver heap x0 n_x n_eq n_ineq func spsolve max_iter tol verbose
           = Inr (sol, heap', out)"
  obtains st0 st out0 ret where
    "ips_init heap x0 n_eq n_ineq max_iter = Inr st0"
    "ips_reach func spsolve n_x n_ineq max_iter tol verbose (st0, []) (st, out0)"
    "loop_inv n_ineq max_iter tol st"
    "st_converged st \<or> max_iter \<le> st_iter_counter st"
    "st_ret st = Some ret"
    "sol = \<lparr>sol_x = st_x st, sol_error = st_error st, sol_gamma = st_gamma st,
            sol_lam = st_lam st, sol_structs = ret,
            sol_converged = st_converged st, sol_iterations = st_iter_counter st,
            sol_error_evolution = st_error_evolution st\<rparr>"
    "heap' = st_heap st"
    "out = out0 @ final_report verbose st"
proof (rule interior_point_solverE [OF assms])
  fix st0 st out0 ret
  assume i: "ips_init heap x0 n_eq n_ineq max_iter = Inr st0"
    and l: "ips_loop func spsolve n_x n_ineq max_iter tol verbose (st0, []) = Inr (st, out0)"
    and rest: "st_ret st = Some ret"
    "sol = \<lparr>sol_x = st_x st, sol_error = st_error st, sol_gamma = st_gamma st,
            sol_lam = st_lam st, sol_structs = ret,
            sol_converged = st_converged st, sol_iterations = st_iter_counter st,
            sol_error_evolution = st_error_evolution st\<rparr>"
    "heap' = st_heap st"
    "out = out0 @ final_report verbose st"
  from ips_loop_reach [OF l]
  have r: "ips_reach func spsolve n_x n_ineq max_iter tol verbose (st0, []) (st, out0)"
    and f: "st_converged st \<or> max_iter \<le> st_iter_counter st"
    by simp_all
  from ips_reach_inv [OF r] ips_init_inv [OF i]
  have v: "loop_inv n_ineq max_iter tol st" by simp
  from i r v f rest show thesis
    by (rule that)
qed


section \<open>The floor of the barrier parameter\<close>

text \<open>
  With at least one inequality the update \<open>gamma = max(0.1 (mu . z) / n_ineq, tol)\<close>
  keeps \<open>gamma\<close> at or above \<open>tol\<close>, in every returned solution.
\<close>

lemma gamma_floor_with_inequalities:
  assumes "0 < n_ineq"
    and "interior_point_solver heap x0 n_x n_eq n_ineq func spsolve max_iter tol verbose
           = Inr (sol, heap', out)"
  shows "\<exists>g. sol_gamma sol = Fin g \<and> tol \<le> g"
proof (rule solution_state [OF assms(2)])
  fix st0 st out0 ret
  assume "loop_inv n_ineq max_iter tol st" "st_ret st = Some ret"
    "sol = \<lparr>sol_x = st_x st, sol_error = st_error st, sol_gamma = st_gamma st,
            sol_lam = st_lam st, sol_structs = ret,
            sol_converged = st_converged st, sol_iterations = st_iter_counter st,
            sol_error_evolution = st_error_evolution st\<rparr>"
  with assms(1) show ?thesis
    by (auto simp: loop_inv_def split: if_splits)
qed

text \<open>
  C3 fails in the code when there is no inequality. The problem \<open>qp_eq\<close> has
  \<open>n_ineq = 0\<close>: \<open>mu\<close> and \<open>z\<close> are empty, \<open>mu @ z\<close> is \<open>0.0\<close>, the quotient
  \<open>0.0 / 0\<close> is NaN, and \<open>max(nan, tol)\<close> is NaN. After one iteration the returned
  \<open>gamma\<close> is NaN, and \<open>gamma >= tol\<close> is false.
\<close>

theorem gamma_floor_fails_without_inequalities:
  "\<exists>sol heap' out.
     interior_point_solver [[0]] 0 1 1 0 qp_eq solve_2x2 1 (1 / 10 ^ 6) 0 = Inr (sol, heap', out)
     \<and> sol_iterations sol = 1
     \<and> sol_gamma sol = NaN
     \<and> \<not> le_fnum (1 / 10 ^ 6) (sol_gamma sol)"
  by (simp add: interior_point_solver_def ips_init_nonneg ips_loop.simps ips_eval)

text \<open>
  C4 fails in the code. The division by \<open>n_ineq\<close> is not guarded: it raises nothing,
  but with \<open>n_ineq = 0\<close> every solution the solver returns has \<open>gamma = NaN\<close>, has
  \<open>converged = False\<close>, and has used all \<open>max_iter\<close> iterations.
\<close>

theorem no_inequalities_never_converges:
  assumes "interior_point_solver heap x0 n_x n_eq 0 func spsolve max_iter tol verbose
           = Inr (sol, heap', out)"
  shows "sol_gamma sol = NaN \<and> \<not> sol_converged sol \<and> sol_iterations sol = max_iter"
proof (rule solution_state [OF assms])
  fix st0 st out0 ret
  assume i: "loop_inv 0 max_iter tol st"
    and f: "st_converged st \<or> max_iter \<le> st_iter_counter st"
    and r: "st_ret st = Some ret"
    and s: "sol = \<lparr>sol_x = st_x st, sol_error = st_error st, sol_gamma = st_gamma st,
            sol_lam = st_lam st, sol_structs = ret,
            sol_converged = st_converged st, sol_iterations = st_iter_counter st,
            sol_error_evolution = st_error_evolution st\<rparr>"
  from i r have g: "st_gamma st = NaN"
    by (auto simp: loop_inv_def split: if_splits)
  with i have c: "\<not> st_converged st"
    by (simp add: loop_inv_def)
  with f i have "st_iter_counter st = max_iter"
    by (simp add: loop_inv_def)
  with g c s show ?thesis by simp
qed

text \<open>
  On \<open>qp_eq\<close> from \<open>x0 = [0]\<close> the third step is smaller than \<open>tol = 10\<^sup>-\<^sup>6\<close>, and the
  solution is still reported as not converged.
\<close>

lemma qp_eq_run:
  "\<exists>sol heap' out.
     interior_point_solver [[0]] 0 1 1 0 qp_eq solve_2x2 3 (1 / 10 ^ 6) 0 = Inr (sol, heap', out)
     \<and> sol_error sol \<le> 1 / 10 ^ 6"
  by (simp add: interior_point_solver_def ips_init_nonneg ips_loop.simps ips_eval)

theorem no_inequalities_never_converges_witness:
  "\<exists>sol heap' out.
     interior_point_solver [[0]] 0 1 1 0 qp_eq solve_2x2 3 (1 / 10 ^ 6) 0 = Inr (sol, heap', out)
     \<and> sol_error sol \<le> 1 / 10 ^ 6
     \<and> sol_gamma sol = NaN \<and> \<not> sol_converged sol \<and> sol_iterations sol = 3"
proof -
  from qp_eq_run obtain sol heap' out where
    r: "interior_point_solver [[0]] 0 1 1 0 qp_eq solve_2x2 3 (1 / 10 ^ 6) 0
        = Inr (sol, heap', out)"
    and e: "sol_error sol \<le> 1 / 10 ^ 6"
    by blast
  from no_inequalities_never_converges [OF r] r e show ?thesis
    by blast
qed

section \<open>The caller's initial point\<close>

lemma newton_step_frame:
  assumes "newton_step func spsolve n_x n_ineq tol st = Inr (st', dx, dz, dmu, dlam)"
  shows "st_x st' = st_x st \<and> take (st_x st) (st_heap st') = take (st_x st) (st_heap st)"
  by (rule newton_stepE [OF assms]) simp

lemma ips_iteration_frame:
  assumes "ips_iteration func spsolve n_x n_ineq tol verbose sp = Inr sp'"
  shows "st_x (fst sp') = st_x (fst sp)
         \<and> take (st_x (fst sp)) (st_heap (fst sp')) = take (st_x (fst sp)) (st_heap (fst sp))"
proof -
  from assms have "ips_iteration func spsolve n_x n_ineq tol verbose (fst sp, snd sp)
                   = Inr (fst sp', snd sp')"
    by simp
  then obtain s1 dx dz dmu dlam ee where
    n: "newton_step func spsolve n_x n_ineq tol (fst sp) = Inr (s1, dx, dz, dmu, dlam)"
    and s: "fst sp' = s1\<lparr>st_iter_counter := st_iter_counter s1 + 1, st_error_evolution := ee\<rparr>"
    by (elim ips_iterationE)
  from newton_step_frame [OF n] s show ?thesis by simp
qed

lemma ips_reach_frame:
  assumes "ips_reach func spsolve n_x n_ineq max_iter tol verbose sp0 sp"
  shows "st_x (fst sp) = st_x (fst sp0)
         \<and> take (st_x (fst sp0)) (st_heap (fst sp)) = take (st_x (fst sp0)) (st_heap (fst sp0))"
  using assms
proof (induction rule: ips_reach.induct)
  case reach_start
  show ?case by simp
next
  case (reach_iter sp sp')
  from ips_iteration_frame [OF reach_iter.hyps(4)] reach_iter.IH show ?case
    by simp
qed

text \<open>
  C9. \<open>interior_point_solver\<close> never writes to the caller's array \<open>x0\<close>: it works
  on the copy made by \<open>x0.copy()\<close>. When the call returns, \<open>x0\<close> (and every array
  that existed before the call) holds what it held before, and the returned \<open>x\<close> is
  another array, the one allocated by the call.
\<close>

theorem x0_not_mutated:
  assumes "x0 < length heap"
    and "interior_point_solver heap x0 n_x n_eq n_ineq func spsolve max_iter tol verbose
           = Inr (sol, heap', out)"
  shows "heap' ! x0 = heap ! x0 \<and> sol_x sol \<noteq> x0
         \<and> sol_x sol = length heap \<and> take (length heap) heap' = heap"
proof (rule solution_state [OF assms(2)])
  fix st0 st out0 ret
  assume i: "ips_init heap x0 n_eq n_ineq max_iter = Inr st0"
    and r: "ips_reach func spsolve n_x n_ineq max_iter tol verbose (st0, []) (st, out0)"
    and s: "sol = \<lparr>sol_x = st_x st, sol_error = st_error st, sol_gamma = st_gamma st,
            sol_lam = st_lam st, sol_structs = ret,
            sol_converged = st_converged st, sol_iterations = st_iter_counter st,
            sol_error_evolution = st_error_evolution st\<rparr>"
    and h: "heap' = st_heap st"
  have m: "0 \<le> max_iter"
  proof (rule ccontr)
    assume "\<not> 0 \<le> max_iter"
    then have "max_iter < 0" by simp
    from ips_init_negative [OF this] i show False by simp
  qed
  from ips_init_nonneg [OF m, of heap x0 n_eq n_ineq] i
  have x: "st_x st0 = length heap" and h0: "st_heap st0 = heap @ [heap ! x0]"
    by auto
  from ips_reach_frame [OF r] x h0
  have "st_x st = length heap" and t: "take (length heap) (st_heap st) = heap"
    by simp_all
  with s h have sx: "sol_x sol = length heap" and t': "take (length heap) heap' = heap"
    by simp_all
  from assms(1) have "heap' ! x0 = take (length heap) heap' ! x0"
    by simp
  with t' sx assms(1) show ?thesis by simp
qed

theorem x0_not_mutated_witness:
  "\<exists>sol heap' out.
     (0 :: nat) < length [[0 :: real]]
     \<and> interior_point_solver [[0]] 0 1 0 1 qp_ineq solve_1x1 1 (1 / 10 ^ 6) 0
         = Inr (sol, heap', out)
     \<and> heap' = [[0], [1999999 / 2000000]]
     \<and> heap' ! 0 = [[0]] ! 0 \<and> sol_x sol = 1"
proof -
  have "\<exists>sol heap' out.
     interior_point_solver [[0]] 0 1 0 1 qp_ineq solve_1x1 1 (1 / 10 ^ 6) 0
         = Inr (sol, heap', out)
     \<and> heap' = [[0], [1999999 / 2000000]]"
    by (simp add: interior_point_solver_def ips_init_nonneg ips_loop.simps ips_eval)
  then obtain sol heap' out where
    r: "interior_point_solver [[0]] 0 1 0 1 qp_ineq solve_1x1 1 (1 / 10 ^ 6) 0
         = Inr (sol, heap', out)"
    and h: "heap' = [[0], [1999999 / 2000000]]"
    by blast
  have l: "(0 :: nat) < length [[0 :: real]]" by simp
  from x0_not_mutated [OF l r] r h show ?thesis
    by auto
qed


section \<open>The loop unfolded, and the diagnostic level\<close>

lemma ips_loop_exit:
  assumes "st_converged (fst sp) \<or> max_iter \<le> st_iter_counter (fst sp)"
  shows "ips_loop func spsolve n_x n_ineq max_iter tol verbose sp = Inr sp"
  using assms by (subst ips_loop.simps) auto

lemma ips_loop_enter:
  assumes "\<not> st_converged (fst sp)" and "st_iter_counter (fst sp) < max_iter"
  shows "ips_loop func spsolve n_x n_ineq max_iter tol verbose sp =
         (case ips_iteration func spsolve n_x n_ineq tol verbose sp of
            Inl e \<Rightarrow> Inl e
          | Inr sp' \<Rightarrow> ips_loop func spsolve n_x n_ineq max_iter tol verbose sp')"
  using assms by (subst ips_loop.simps) simp

lemma ips_loop_enterE:
  assumes "\<not> st_converged (fst sp)" and "st_iter_counter (fst sp) < max_iter"
    and "ips_loop func spsolve n_x n_ineq max_iter tol verbose sp = Inr r"
  obtains sp' where "ips_iteration func spsolve n_x n_ineq tol verbose sp = Inr sp'"
    and "ips_loop func spsolve n_x n_ineq max_iter tol verbose sp' = Inr r"
  using assms(3) unfolding ips_loop_enter [OF assms(1,2)]
  by (auto split: sum.splits)

lemma ips_iteration_verbose:
  assumes "ips_iteration func spsolve n_x n_ineq tol v1 (st, o1) = Inr (s1, o1')"
    and "ips_iteration func spsolve n_x n_ineq tol v2 (st, o2) = Inr (s2, o2')"
  shows "s1 = s2"
proof (rule ips_iterationE [OF assms(1)])
  fix a dx dz dmu dlam printed ee
  assume n1: "newton_step func spsolve n_x n_ineq tol st = Inr (a, dx, dz, dmu, dlam)"
    and e1: "py_setitem (st_error_evolution a) (st_iter_counter a + 1) (st_error a) = Inr ee"
    and s1: "s1 = a\<lparr>st_iter_counter := st_iter_counter a + 1, st_error_evolution := ee\<rparr>"
  show ?thesis
  proof (rule ips_iterationE [OF assms(2)])
    fix b dx' dz' dmu' dlam' printed' ee'
    assume n2: "newton_step func spsolve n_x n_ineq tol st = Inr (b, dx', dz', dmu', dlam')"
      and e2: "py_setitem (st_error_evolution b) (st_iter_counter b + 1) (st_error b) = Inr ee'"
      and s2: "s2 = b\<lparr>st_iter_counter := st_iter_counter b + 1, st_error_evolution := ee'\<rparr>"
    from n1 n2 have "a = b" by simp
    with e1 e2 s1 s2 show ?thesis by simp
  qed
qed

lemma ips_iteration_verbose_fst:
  assumes a: "ips_iteration func spsolve n_x n_ineq tol v1 sp1 = Inr a"
    and b: "ips_iteration func spsolve n_x n_ineq tol v2 sp2 = Inr b"
    and e: "fst sp1 = fst sp2"
  shows "fst a = fst b"
proof -
  obtain st o1 where sp1: "sp1 = (st, o1)" by (cases sp1)
  with e obtain o2 where sp2: "sp2 = (st, o2)" by (cases sp2) simp
  obtain s1 o1' where a': "a = (s1, o1')" by (cases a)
  obtain s2 o2' where b': "b = (s2, o2')" by (cases b)
  from a b have "s1 = s2"
    unfolding sp1 sp2 a' b' by (rule ips_iteration_verbose)
  then show ?thesis by (simp add: a' b')
qed

lemma ips_loop_verbose:
  assumes "ips_loop func spsolve n_x n_ineq max_iter tol v1 sp1 = Inr sp1'"
    and "ips_loop func spsolve n_x n_ineq max_iter tol v2 sp2 = Inr sp2'"
    and "fst sp1 = fst sp2"
  shows "fst sp1' = fst sp2'"
  using assms
proof (induction func spsolve n_x n_ineq max_iter tol v1 sp1 arbitrary: sp2
    rule: ips_loop.induct)
  case (1 func spsolve n_x n_ineq max_iter tol v1 sp1)
  show ?case
  proof (cases "\<not> st_converged (fst sp1) \<and> st_iter_counter (fst sp1) < max_iter")
    case False
    then have e1: "st_converged (fst sp1) \<or> max_iter \<le> st_iter_counter (fst sp1)"
      by auto
    with "1.prems"(3)
    have e2: "st_converged (fst sp2) \<or> max_iter \<le> st_iter_counter (fst sp2)"
      by simp
    from "1.prems"(1) have "sp1' = sp1"
      by (simp add: ips_loop_exit [OF e1])
    moreover from "1.prems"(2) have "sp2' = sp2"
      by (simp add: ips_loop_exit [OF e2])
    ultimately show ?thesis
      using "1.prems"(3) by simp
  next
    case True
    then have c1: "\<not> st_converged (fst sp1)" "st_iter_counter (fst sp1) < max_iter"
      by simp_all
    with "1.prems"(3)
    have c2: "\<not> st_converged (fst sp2)" "st_iter_counter (fst sp2) < max_iter"
      by simp_all
    from ips_loop_enterE [OF c1 "1.prems"(1)] obtain a where
      ia: "ips_iteration func spsolve n_x n_ineq tol v1 sp1 = Inr a"
      and la: "ips_loop func spsolve n_x n_ineq max_iter tol v1 a = Inr sp1'"
      by blast
    from ips_loop_enterE [OF c2 "1.prems"(2)] obtain b where
      ib: "ips_iteration func spsolve n_x n_ineq tol v2 sp2 = Inr b"
      and lb: "ips_loop func spsolve n_x n_ineq max_iter tol v2 b = Inr sp2'"
      by blast
    from ia ib "1.prems"(3) have "fst a = fst b"
      by (rule ips_iteration_verbose_fst)
    from "1.IH" [OF True ia la lb this] show ?thesis .
  qed
qed

section \<open>Under the contract on dimensions every iteration succeeds\<close>

lemma fnum_times_ok:
  assumes "n = 0 \<or> (\<exists>g. gamma = Fin g)"
  shows "\<exists>v. fnum_times gamma (np_ones n) = Inr v \<and> length v = n"
  using assms by (cases gamma) (auto simp: np_ones_def)

lemma np_bin_same:
  assumes "length a = length b"
  shows "np_bin f a b = Inr (map2 f a b)"
  using assms by (simp add: np_bin_def)

lemma compose_jacobian_ok:
  assumes "wf_ret n_x n_eq n_ineq ret"
    and "nrows z_inv = n_ineq" "ncols z_inv = n_ineq"
    and "nrows mu_diag = n_ineq" "ncols mu_diag = n_ineq"
  shows "\<exists>J. compose_jacobian ret z_inv mu_diag = Inr J
             \<and> nrows J = n_x + n_eq \<and> ncols J = n_x + n_eq"
  using assms
  by (simp add: compose_jacobian_def wf_ret_def sp_add_def sp_matmul_def sp_T_def
      pack_3_by_4_def)

lemma compose_residual_ok:
  assumes "wf_ret n_x n_eq n_ineq ret"
    and "nrows z_inv = n_ineq" "ncols z_inv = n_ineq"
    and "n_ineq = 0 \<or> (\<exists>g. gamma = Fin g)"
    and "length mu = n_ineq" "length lam = n_eq"
  shows "\<exists>r. compose_residual ret z_inv gamma (np_ones n_ineq) mu lam = Inr r
             \<and> length r = n_x + n_eq"
proof -
  from fnum_times_ok [OF assms(4)] obtain ge where
    "fnum_times gamma (np_ones n_ineq) = Inr ge" "length ge = n_ineq"
    by blast
  with assms show ?thesis
    by (simp add: compose_residual_def wf_ret_def sp_matvec_def sp_matmul_def np_bin_same
        np_neg_def)
qed

lemma calc_dz_ok:
  assumes "wf_ret n_x n_eq n_ineq ret" and "length z = n_ineq" and "length dx = n_x"
  shows "\<exists>dz. calc_dz ret z dx = Inr dz \<and> length dz = n_ineq"
  using assms
  by (simp add: calc_dz_def wf_ret_def sp_matvec_def sp_T_def np_bin_same np_neg_def)

lemma calc_dmu_ok:
  assumes "nrows z_inv = n_ineq" "ncols z_inv = n_ineq"
    and "n_ineq = 0 \<or> (\<exists>g. gamma = Fin g)"
    and "length mu = n_ineq" and "length dz = n_ineq"
  shows "\<exists>dmu. calc_dmu mu z_inv gamma (np_ones n_ineq) dz = Inr dmu \<and> length dmu = n_ineq"
proof -
  from fnum_times_ok [OF assms(3)] obtain ge where
    "fnum_times gamma (np_ones n_ineq) = Inr ge" "length ge = n_ineq"
    by blast
  with assms show ?thesis
    by (simp add: calc_dmu_def sp_matvec_def np_bin_same np_neg_def)
qed


lemma np_iadd_same:
  assumes "length b = length a"
  shows "np_iadd a b = Inr (map2 (+) a b)"
  using assms by (simp add: np_iadd_def)

lemma step_calculation_ok:
  assumes "length V \<le> length dV"
  shows "\<exists>alpha. step_calculation V dV = Inr alpha"
  using step_calculation_value [OF assms] by blast

lemma newton_step_ok:
  assumes e: "wf_evaluator n_x n_eq n_ineq func"
    and s: "wf_solver (n_x + n_eq) spsolve"
    and i: "loop_inv n_ineq max_iter tol st"
    and x: "length (st_heap st ! st_x st) = n_x"
    and l: "length (st_lam st) = n_eq"
  shows "\<exists>st' dx dz dmu dlam.
           newton_step func spsolve n_x n_ineq tol st = Inr (st', dx, dz, dmu, dlam)
           \<and> length dx = n_x \<and> length dlam = n_eq
           \<and> length dz = n_ineq \<and> length dmu = n_ineq
           \<and> length (st_heap st' ! st_x st') = n_x \<and> length (st_lam st') = n_eq"
proof -
  from i have lz: "length (st_z st) = n_ineq" and lm: "length (st_mu st) = n_ineq"
    and pz: "\<forall>a\<in>set (st_z st). 0 < a" and pm: "\<forall>a\<in>set (st_mu st). 0 < a"
    and zi: "nrows (st_z_inv st) = n_ineq" "ncols (st_z_inv st) = n_ineq"
    and md: "nrows (st_mu_diag st) = n_ineq" "ncols (st_mu_diag st) = n_ineq"
    and xh: "st_x st < length (st_heap st)"
    by (simp_all add: loop_inv_def positive_state_def list_all_iff diags_def)
  from i have g: "n_ineq = 0 \<or> (\<exists>g. st_gamma st = Fin g)"
    by (auto simp: loop_inv_def split: if_splits)
  from e x lm l obtain ret where
    f: "func (st_heap st ! st_x st) (st_mu st) (st_lam st) = Inr ret"
    and w: "wf_ret n_x n_eq n_ineq ret"
    unfolding wf_evaluator_def by blast
  from compose_jacobian_ok [OF w zi md] obtain J where
    J: "compose_jacobian ret (st_z_inv st) (st_mu_diag st) = Inr J"
    and Jd: "nrows J = n_x + n_eq" "ncols J = n_x + n_eq"
    by blast
  from compose_residual_ok [OF w zi g lm l] obtain r where
    r: "compose_residual ret (st_z_inv st) (st_gamma st) (np_ones n_ineq) (st_mu st) (st_lam st)
        = Inr r"
    and rl: "length r = n_x + n_eq"
    by blast
  from s Jd rl obtain sol where sol: "spsolve J r = Inr sol" and sl: "length sol = n_x + n_eq"
    unfolding wf_solver_def by blast
  define dx where "dx = take n_x sol"
  define dlam where "dlam = drop n_x sol"
  have dxl: "length dx = n_x" and dll: "length dlam = n_eq"
    using sl by (simp_all add: dx_def dlam_def)
  from calc_dz_ok [OF w lz dxl] obtain dz where
    dz: "calc_dz ret (st_z st) dx = Inr dz" and dzl: "length dz = n_ineq"
    by blast
  from calc_dmu_ok [OF zi g lm dzl] obtain dmu where
    dmu: "calc_dmu (st_mu st) (st_z_inv st) (st_gamma st) (np_ones n_ineq) dz = Inr dmu"
    and dml: "length dmu = n_ineq"
    by blast
  from step_calculation_ok [of "st_z st" dz] lz dzl obtain alpha_p where
    ap: "step_calculation (st_z st) dz = Inr alpha_p"
    by auto
  from step_calculation_ok [of "st_mu st" dmu] lm dml obtain alpha_d where
    ad: "step_calculation (st_mu st) dmu = Inr alpha_d"
    by auto
  define x' where "x' = map2 (+) (st_heap st ! st_x st) (np_scale dx alpha_p)"
  define z' where "z' = map2 (+) (st_z st) (np_scale dz alpha_p)"
  define lam' where "lam' = map2 (+) (st_lam st) (np_scale dlam alpha_d)"
  define mu' where "mu' = map2 (+) (st_mu st) (np_scale dmu alpha_d)"
  have ux: "np_iadd (st_heap st ! st_x st) (np_scale dx alpha_p) = Inr x'"
    unfolding x'_def using x dxl by (intro np_iadd_same) (simp add: np_scale_def)
  have uz: "np_iadd (st_z st) (np_scale dz alpha_p) = Inr z'"
    unfolding z'_def using lz dzl by (intro np_iadd_same) (simp add: np_scale_def)
  have ul: "np_iadd (st_lam st) (np_scale dlam alpha_d) = Inr lam'"
    unfolding lam'_def using l dll by (intro np_iadd_same) (simp add: np_scale_def)
  have um: "np_iadd (st_mu st) (np_scale dmu alpha_d) = Inr mu'"
    unfolding mu'_def using lm dml by (intro np_iadd_same) (simp add: np_scale_def)
  have ls: "length x' = n_x" "length z' = n_ineq" "length lam' = n_eq" "length mu' = n_ineq"
    using np_iadd_length [OF ux] np_iadd_length [OF uz] np_iadd_length [OF ul]
      np_iadd_length [OF um] x lz l lm by simp_all
  from ls obtain mz where mz: "np_dot mu' z' = Inr mz"
    by (simp add: np_dot_def)
  from update_positive [OF pz ap uz] have rz: "np_recip z' = Inr (map (\<lambda>a. 1 / a) z')"
    by (rule np_recip_positive)
  have "\<exists>st'. newton_step func spsolve n_x n_ineq tol st = Inr (st', dx, dz, dmu, dlam)
          \<and> st_heap st' ! st_x st' = x' \<and> st_lam st' = lam'"
    unfolding newton_step_def Let_def split_def
    using f J r sol dz dmu ap ad ux uz ul um mz rz xh
    by (simp add: dx_def [symmetric] dlam_def [symmetric])
  with dxl dll dzl dml ls show ?thesis
    by blast
qed


lemma ips_iteration_ok:
  assumes e: "wf_evaluator n_x n_eq n_ineq func"
    and s: "wf_solver (n_x + n_eq) spsolve"
    and i: "loop_inv n_ineq max_iter tol (fst sp)"
    and c: "st_iter_counter (fst sp) < max_iter"
    and x: "length (st_heap (fst sp) ! st_x (fst sp)) = n_x"
    and l: "length (st_lam (fst sp)) = n_eq"
  shows "\<exists>sp'. ips_iteration func spsolve n_x n_ineq tol verbose sp = Inr sp'
           \<and> length (st_heap (fst sp') ! st_x (fst sp')) = n_x
           \<and> length (st_lam (fst sp')) = n_eq"
proof -
  from newton_step_ok [OF e s i x l] obtain s1 dx dz dmu dlam where
    n: "newton_step func spsolve n_x n_ineq tol (fst sp) = Inr (s1, dx, dz, dmu, dlam)"
    and d: "length dx = n_x" "length dlam = n_eq" "length dz = n_ineq" "length dmu = n_ineq"
    and h: "length (st_heap s1 ! st_x s1) = n_x" "length (st_lam s1) = n_eq"
    by blast
  note f = newton_step_inv [OF i n]
  from f(1) have p: "length (st_z s1) = n_ineq" "length (st_mu s1) = n_ineq"
    by (simp_all add: positive_state_def)
  from d h p have "\<exists>printed. iteration_report verbose s1 dx dz dmu dlam = Inr printed"
    by (simp add: iteration_report_def)
  then obtain printed where
    pr: "iteration_report verbose s1 dx dz dmu dlam = Inr printed"
    by blast
  from i have b: "0 \<le> st_iter_counter (fst sp)"
    and le: "length (st_error_evolution (fst sp)) = nat (max_iter + 1)"
    by (simp_all add: loop_inv_def)
  with c f(4,5)
  have "\<exists>ee. py_setitem (st_error_evolution s1) (st_iter_counter s1 + 1) (st_error s1)
              = Inr ee"
    by (simp add: py_setitem_def Let_def)
  then obtain ee where
    ee: "py_setitem (st_error_evolution s1) (st_iter_counter s1 + 1) (st_error s1) = Inr ee"
    by blast
  from n pr ee h show ?thesis
    by (simp add: ips_iteration_def)
qed

lemma ips_loop_ok:
  assumes "wf_evaluator n_x n_eq n_ineq func"
    and "wf_solver (n_x + n_eq) spsolve"
    and "loop_inv n_ineq max_iter tol (fst sp)"
    and "length (st_heap (fst sp) ! st_x (fst sp)) = n_x"
    and "length (st_lam (fst sp)) = n_eq"
  shows "\<exists>sp'. ips_loop func spsolve n_x n_ineq max_iter tol verbose sp = Inr sp'"
  using assms
proof (induction func spsolve n_x n_ineq max_iter tol verbose sp rule: ips_loop.induct)
  case (1 func spsolve n_x n_ineq max_iter tol verbose sp)
  show ?case
  proof (cases "\<not> st_converged (fst sp) \<and> st_iter_counter (fst sp) < max_iter")
    case False
    then have "st_converged (fst sp) \<or> max_iter \<le> st_iter_counter (fst sp)"
      by auto
    from ips_loop_exit [OF this] show ?thesis
      by blast
  next
    case True
    then have c: "\<not> st_converged (fst sp)" "st_iter_counter (fst sp) < max_iter"
      by simp_all
    from ips_iteration_ok [OF "1.prems"(1,2,3) c(2) "1.prems"(4,5)] obtain sp1 where
      it: "ips_iteration func spsolve n_x n_ineq tol verbose sp = Inr sp1"
      and h: "length (st_heap (fst sp1) ! st_x (fst sp1)) = n_x"
        "length (st_lam (fst sp1)) = n_eq"
      by blast
    from ips_iteration_inv [OF "1.prems"(3) c(2) it]
    have v: "loop_inv n_ineq max_iter tol (fst sp1)" .
    from "1.IH" [OF True it "1.prems"(1,2) v h] obtain sp' where
      "ips_loop func spsolve n_x n_ineq max_iter tol verbose sp1 = Inr sp'"
      by blast
    with it show ?thesis
      by (simp add: ips_loop_enter [OF c])
  qed
qed

lemma contract_loop_returns:
  assumes m: "0 \<le> max_iter"
    and x0: "length (heap ! x0) = n_x"
    and e: "wf_evaluator n_x n_eq n_ineq func"
    and s: "wf_solver (n_x + n_eq) spsolve"
  shows "\<exists>st0 st out0.
           ips_init heap x0 n_eq n_ineq max_iter = Inr st0
           \<and> ips_loop func spsolve n_x n_ineq max_iter tol verbose (st0, []) = Inr (st, out0)"
proof -
  from ips_init_nonneg [OF m, of heap x0 n_eq n_ineq] obtain st0 where
    i: "ips_init heap x0 n_eq n_ineq max_iter = Inr st0"
    and h0: "st_heap st0 ! st_x st0 = heap ! x0" and l0: "st_lam st0 = np_ones n_eq"
    by simp
  have v0: "loop_inv n_ineq max_iter tol (fst (st0, []))"
    using ips_init_inv [OF i] by simp
  have d0: "length (st_heap (fst (st0, [])) ! st_x (fst (st0, []))) = n_x"
    "length (st_lam (fst (st0, []))) = n_eq"
    using h0 l0 x0 by (simp_all add: np_ones_def)
  from ips_loop_ok [OF e s v0 d0] obtain st out0 where
    "ips_loop func spsolve n_x n_ineq max_iter tol verbose (st0, []) = Inr (st, out0)"
    by (metis surj_pair)
  with i show ?thesis by blast
qed

text \<open>
  When the loop ends after \<open>max_iter \<ge> 1\<close> was allowed, it has run at least once:
  the initial \<open>error\<close> of \<open>1e20\<close> is above the initial \<open>gamma\<close> of 1. So \<open>ret\<close> is
  bound.
\<close>

lemma final_state_has_run:
  assumes m: "1 \<le> max_iter"
    and i: "ips_init heap x0 n_eq n_ineq max_iter = Inr st0"
    and lp: "ips_loop func spsolve n_x n_ineq max_iter tol verbose (st0, []) = Inr (st, out0)"
  shows "loop_inv n_ineq max_iter tol st"
    and "st_converged st \<or> max_iter \<le> st_iter_counter st"
    and "1 \<le> st_iter_counter st"
    and "\<exists>ret. st_ret st = Some ret"
proof -
  from ips_loop_reach [OF lp]
  have r: "ips_reach func spsolve n_x n_ineq max_iter tol verbose (st0, []) (st, out0)"
    and f: "st_converged st \<or> max_iter \<le> st_iter_counter st"
    by simp_all
  from ips_reach_inv [OF r] ips_init_inv [OF i]
  show v: "loop_inv n_ineq max_iter tol st"
    by simp
  show "st_converged st \<or> max_iter \<le> st_iter_counter st"
    by (rule f)
  have c1: "st_iter_counter st \<noteq> 0"
  proof
    assume z: "st_iter_counter st = 0"
    with v have "st_gamma st = Fin 1" "st_error st = 10 ^ 20"
      "st_converged st = le_fnum (st_error st) (st_gamma st)"
      by (simp_all add: loop_inv_def)
    then have "\<not> st_converged st" by simp
    with f z m show False by simp
  qed
  with v show "1 \<le> st_iter_counter st"
    by (simp add: loop_inv_def)
  from v c1 show "\<exists>ret. st_ret st = Some ret"
    by (auto simp: loop_inv_def)
qed

text \<open>
  C6. For \<open>max_iter \<ge> 1\<close>, with an initial point of \<open>n_x\<close> entries, an evaluator
  and a solver that raise nothing and respect the dimensions, the call returns: the loop
  runs at least once and at most \<open>max_iter\<close> times, no exception is raised for
  non-convergence, the returned \<open>iterations\<close> is at most \<open>max_iter\<close>, and
  \<open>converged\<close> is the comparison \<open>error <= gamma\<close> of the final values. A solution
  that is not converged has used all \<open>max_iter\<close> iterations.
\<close>

theorem solver_returns_within_max_iter:
  assumes m: "1 \<le> max_iter"
    and x0: "x0 < length heap" "length (heap ! x0) = n_x"
    and e: "wf_evaluator n_x n_eq n_ineq func"
    and s: "wf_solver (n_x + n_eq) spsolve"
  shows "\<exists>sol heap' out.
           interior_point_solver heap x0 n_x n_eq n_ineq func spsolve max_iter tol verbose
             = Inr (sol, heap', out)
           \<and> 1 \<le> sol_iterations sol \<and> sol_iterations sol \<le> max_iter
           \<and> sol_converged sol = le_fnum (sol_error sol) (sol_gamma sol)
           \<and> (\<not> sol_converged sol \<longrightarrow> sol_iterations sol = max_iter)"
proof -
  from m have m0: "0 \<le> max_iter" by simp
  from contract_loop_returns [OF m0 x0(2) e s] obtain st0 st out0 where
    i: "ips_init heap x0 n_eq n_ineq max_iter = Inr st0"
    and lp: "ips_loop func spsolve n_x n_ineq max_iter tol verbose (st0, []) = Inr (st, out0)"
    by blast
  note fin = final_state_has_run [OF m i lp]
  from fin(4) obtain ret where ret: "st_ret st = Some ret"
    by blast
  from fin(1) have b: "st_iter_counter st \<le> max_iter"
    and cv: "st_converged st = le_fnum (st_error st) (st_gamma st)"
    by (simp_all add: loop_inv_def)
  have "interior_point_solver heap x0 n_x n_eq n_ineq func spsolve max_iter tol verbose
        = Inr (\<lparr>sol_x = st_x st, sol_error = st_error st, sol_gamma = st_gamma st,
               sol_lam = st_lam st, sol_structs = ret,
               sol_converged = st_converged st, sol_iterations = st_iter_counter st,
               sol_error_evolution = st_error_evolution st\<rparr>,
              st_heap st, out0 @ final_report verbose st)"
    using i lp ret by (simp add: interior_point_solver_def)
  with b cv fin(2,3) show ?thesis
    by auto
qed

lemma qp_ineq_wf: "wf_evaluator 1 0 1 qp_ineq"
  by (simp add: wf_evaluator_def wf_ret_def qp_ineq_def const_mat_def)

lemma solve_1x1_wf: "wf_solver 1 solve_1x1"
  by (simp add: wf_solver_def solve_1x1_def)

lemma qp_ineq_run:
  "\<exists>sol heap' out.
     interior_point_solver [[0]] 0 1 0 1 qp_ineq solve_1x1 2 (1 / 10 ^ 6) 0 = Inr (sol, heap', out)
     \<and> sol_iterations sol = 2 \<and> \<not> sol_converged sol"
  by (simp add: interior_point_solver_def ips_init_nonneg ips_loop.simps ips_eval)

theorem solver_returns_within_max_iter_witness:
  "(1 :: int) \<le> 2 \<and> (0 :: nat) < length [[0 :: real]] \<and> length ([[0 :: real]] ! 0) = 1
   \<and> wf_evaluator 1 0 1 qp_ineq \<and> wf_solver (1 + 0) solve_1x1
   \<and> (\<exists>sol heap' out.
         interior_point_solver [[0]] 0 1 0 1 qp_ineq solve_1x1 2 (1 / 10 ^ 6) 0
           = Inr (sol, heap', out)
         \<and> 1 \<le> sol_iterations sol \<and> sol_iterations sol \<le> 2
         \<and> sol_converged sol = le_fnum (sol_error sol) (sol_gamma sol)
         \<and> sol_iterations sol = 2 \<and> \<not> sol_converged sol)"
proof -
  have m: "(1 :: int) \<le> 2" by simp
  have x: "(0 :: nat) < length [[0 :: real]]" "length ([[0 :: real]] ! 0) = 1"
    by simp_all
  have s: "wf_solver (1 + 0) solve_1x1"
    using solve_1x1_wf by simp
  from solver_returns_within_max_iter [OF m x qp_ineq_wf s, of "1 / 10 ^ 6" 0]
  obtain sol heap' out where
    r: "interior_point_solver [[0]] 0 1 0 1 qp_ineq solve_1x1 2 (1 / 10 ^ 6) 0
        = Inr (sol, heap', out)"
    and b: "1 \<le> sol_iterations sol" "sol_iterations sol \<le> 2"
      "sol_converged sol = le_fnum (sol_error sol) (sol_gamma sol)"
    by blast
  from qp_ineq_run r have "sol_iterations sol = 2 \<and> \<not> sol_converged sol"
    by auto
  with m x qp_ineq_wf s r b show ?thesis
    by blast
qed


section \<open>Two runs that differ in the diagnostic level\<close>

lemma verbose_same_record:
  assumes "interior_point_solver heap x0 n_x n_eq n_ineq func spsolve max_iter tol v1
           = Inr (sol1, heap1, out1)"
    and "interior_point_solver heap x0 n_x n_eq n_ineq func spsolve max_iter tol v2
           = Inr (sol2, heap2, out2)"
  shows "sol1 = sol2 \<and> heap1 = heap2"
proof (rule interior_point_solverE [OF assms(1)])
  fix st0 st out0 ret
  assume i1: "ips_init heap x0 n_eq n_ineq max_iter = Inr st0"
    and l1: "ips_loop func spsolve n_x n_ineq max_iter tol v1 (st0, []) = Inr (st, out0)"
    and r1: "st_ret st = Some ret"
    and s1: "sol1 = \<lparr>sol_x = st_x st, sol_error = st_error st, sol_gamma = st_gamma st,
            sol_lam = st_lam st, sol_structs = ret,
            sol_converged = st_converged st, sol_iterations = st_iter_counter st,
            sol_error_evolution = st_error_evolution st\<rparr>"
    and h1: "heap1 = st_heap st"
  show ?thesis
  proof (rule interior_point_solverE [OF assms(2)])
    fix st0' st' out0' ret'
    assume i2: "ips_init heap x0 n_eq n_ineq max_iter = Inr st0'"
      and l2: "ips_loop func spsolve n_x n_ineq max_iter tol v2 (st0', []) = Inr (st', out0')"
      and r2: "st_ret st' = Some ret'"
      and s2: "sol2 = \<lparr>sol_x = st_x st', sol_error = st_error st', sol_gamma = st_gamma st',
            sol_lam = st_lam st', sol_structs = ret',
            sol_converged = st_converged st', sol_iterations = st_iter_counter st',
            sol_error_evolution = st_error_evolution st'\<rparr>"
      and h2: "heap2 = st_heap st'"
    from i1 i2 have "st0 = st0'" by simp
    with ips_loop_verbose [OF l1 l2] have "st = st'" by simp
    with r1 r2 s1 s2 h1 h2 show ?thesis by simp
  qed
qed

lemma solver_returns:
  assumes m: "1 \<le> max_iter"
    and x0: "length (heap ! x0) = n_x"
    and e: "wf_evaluator n_x n_eq n_ineq func"
    and s: "wf_solver (n_x + n_eq) spsolve"
  shows "\<exists>sol heap' out.
           interior_point_solver heap x0 n_x n_eq n_ineq func spsolve max_iter tol verbose
             = Inr (sol, heap', out)"
proof -
  from m have m0: "0 \<le> max_iter" by simp
  from contract_loop_returns [OF m0 x0 e s] obtain st0 st out0 where
    i: "ips_init heap x0 n_eq n_ineq max_iter = Inr st0"
    and lp: "ips_loop func spsolve n_x n_ineq max_iter tol verbose (st0, []) = Inr (st, out0)"
    by blast
  from final_state_has_run(4) [OF m i lp] obtain ret where "st_ret st = Some ret"
    by blast
  with i lp show ?thesis
    by (simp add: interior_point_solver_def)
qed

text \<open>
  C8. Two runs of \<open>interior_point_solver\<close> on the same input that differ only in
  \<open>verbose\<close> return the same solution record (the same \<open>x\<close>, \<open>error\<close>, \<open>gamma\<close>,
  \<open>lam\<close>, \<open>converged\<close>, \<open>iterations\<close> and \<open>error_evolution\<close>) and leave the same
  store, so the same contents of \<open>x\<close>: \<open>verbose\<close> changes only what is printed.
  First, whenever both runs return a record the records are equal. Second, under the
  contract on dimensions with \<open>max_iter \<ge> 1\<close> both runs do return.
\<close>

theorem verbose_only_prints:
  "(interior_point_solver heap x0 n_x n_eq n_ineq func spsolve max_iter tol v1
      = Inr (sol1, heap1, out1)
    \<and> interior_point_solver heap x0 n_x n_eq n_ineq func spsolve max_iter tol v2
      = Inr (sol2, heap2, out2)
    \<longrightarrow> sol1 = sol2 \<and> heap1 = heap2 \<and> heap1 ! sol_x sol1 = heap2 ! sol_x sol2)
   \<and> (1 \<le> max_iter \<and> x0 < length heap \<and> length (heap ! x0) = n_x
      \<and> wf_evaluator n_x n_eq n_ineq func \<and> wf_solver (n_x + n_eq) spsolve
    \<longrightarrow> (\<exists>sol heap' printed1 printed2.
          interior_point_solver heap x0 n_x n_eq n_ineq func spsolve max_iter tol v1
            = Inr (sol, heap', printed1)
          \<and> interior_point_solver heap x0 n_x n_eq n_ineq func spsolve max_iter tol v2
            = Inr (sol, heap', printed2)))"
proof (intro conjI impI)
  assume b: "interior_point_solver heap x0 n_x n_eq n_ineq func spsolve max_iter tol v1
      = Inr (sol1, heap1, out1)
    \<and> interior_point_solver heap x0 n_x n_eq n_ineq func spsolve max_iter tol v2
      = Inr (sol2, heap2, out2)"
  then have r1: "interior_point_solver heap x0 n_x n_eq n_ineq func spsolve max_iter tol v1
      = Inr (sol1, heap1, out1)"
    and r2: "interior_point_solver heap x0 n_x n_eq n_ineq func spsolve max_iter tol v2
      = Inr (sol2, heap2, out2)"
    by simp_all
  from r1 r2 have "sol1 = sol2 \<and> heap1 = heap2"
    by (rule verbose_same_record)
  then show "sol1 = sol2" "heap1 = heap2" "heap1 ! sol_x sol1 = heap2 ! sol_x sol2"
    by simp_all
next
  assume c: "1 \<le> max_iter \<and> x0 < length heap \<and> length (heap ! x0) = n_x
      \<and> wf_evaluator n_x n_eq n_ineq func \<and> wf_solver (n_x + n_eq) spsolve"
  then have m: "1 \<le> max_iter" and x: "length (heap ! x0) = n_x"
    and e: "wf_evaluator n_x n_eq n_ineq func" and s: "wf_solver (n_x + n_eq) spsolve"
    by simp_all
  from solver_returns [OF m x e s, of tol v1] obtain sol1 heap1 printed1 where
    r1: "interior_point_solver heap x0 n_x n_eq n_ineq func spsolve max_iter tol v1
         = Inr (sol1, heap1, printed1)"
    by blast
  from solver_returns [OF m x e s, of tol v2] obtain sol2 heap2 printed2 where
    r2: "interior_point_solver heap x0 n_x n_eq n_ineq func spsolve max_iter tol v2
         = Inr (sol2, heap2, printed2)"
    by blast
  from verbose_same_record [OF r1 r2] r1 r2
  show "\<exists>sol heap' printed1 printed2.
          interior_point_solver heap x0 n_x n_eq n_ineq func spsolve max_iter tol v1
            = Inr (sol, heap', printed1)
          \<and> interior_point_solver heap x0 n_x n_eq n_ineq func spsolve max_iter tol v2
            = Inr (sol, heap', printed2)"
    by blast
qed

theorem verbose_only_prints_witness:
  "(1 :: int) \<le> 1 \<and> (0 :: nat) < length [[0 :: real]] \<and> length ([[0 :: real]] ! 0) = 1
   \<and> wf_evaluator 1 0 1 qp_ineq \<and> wf_solver (1 + 0) solve_1x1
   \<and> (\<exists>sol heap' out1 out2.
         interior_point_solver [[0]] 0 1 0 1 qp_ineq solve_1x1 1 (1 / 10 ^ 6) 0
           = Inr (sol, heap', out1)
         \<and> interior_point_solver [[0]] 0 1 0 1 qp_ineq solve_1x1 1 (1 / 10 ^ 6) 3
           = Inr (sol, heap', out2)
         \<and> out1 = [] \<and> length out2 = 13)"
proof -
  have s: "wf_solver (1 + 0) solve_1x1"
    using solve_1x1_wf by simp
  have c: "(1 :: int) \<le> 1 \<and> (0 :: nat) < length [[0 :: real]]
           \<and> length ([[0 :: real]] ! 0) = 1
           \<and> wf_evaluator 1 0 1 qp_ineq \<and> wf_solver (1 + 0) solve_1x1"
    using qp_ineq_wf s by simp
  from verbose_only_prints [of "[[0]]" 0 1 0 1 qp_ineq solve_1x1 1 "1 / 10 ^ 6" 0 _ _ _ 3] c
  obtain sol heap' out1 out2 where
    r1: "interior_point_solver [[0]] 0 1 0 1 qp_ineq solve_1x1 1 (1 / 10 ^ 6) 0
         = Inr (sol, heap', out1)"
    and r2: "interior_point_solver [[0]] 0 1 0 1 qp_ineq solve_1x1 1 (1 / 10 ^ 6) 3
         = Inr (sol, heap', out2)"
    by blast
  have "\<exists>sol1 heap1.
     interior_point_solver [[0]] 0 1 0 1 qp_ineq solve_1x1 1 (1 / 10 ^ 6) 0
       = Inr (sol1, heap1, [])"
    by (simp add: interior_point_solver_def ips_init_nonneg ips_loop.simps ips_eval)
  with r1 have o1: "out1 = []"
    by auto
  have "\<exists>sol2 heap2 printed.
     interior_point_solver [[0]] 0 1 0 1 qp_ineq solve_1x1 1 (1 / 10 ^ 6) 3
       = Inr (sol2, heap2, printed) \<and> length printed = 13"
    by (simp add: interior_point_solver_def ips_init_nonneg ips_loop.simps ips_eval)
  with r2 have o2: "length out2 = 13"
    by auto
  from c r1 r2 o1 o2 show ?thesis
    by blast
qed


section \<open>The increments and the update of an iteration\<close>

lemma sum_list_delta:
  fixes a :: "nat \<Rightarrow> real"
  assumes "i < n"
  shows "sum_list (map (\<lambda>k. (if i = k then c else 0) * a k) [0..<n]) = c * a i"
proof -
  have "sum_list (map (\<lambda>k. (if i = k then c else 0) * a k) [0..<n])
        = (\<Sum>k\<in>{0..<n}. (if i = k then c else 0) * a k)"
    by (simp add: interv_sum_list_conv_sum_set_nat)
  also have "\<dots> = (\<Sum>k\<in>{0..<n}. if k = i then c * a k else 0)"
    by (intro sum.cong) auto
  also have "\<dots> = c * a i"
    using assms by simp
  finally show ?thesis .
qed

lemma diags_matvec:
  assumes "length w = length v"
  shows "sp_matvec (diags v) w = Inr (map (\<lambda>i. v ! i * w ! i) [0..<length v])"
proof -
  have "sum_list (map (\<lambda>k. (if i = k \<and> i < length v then v ! i else 0) * w ! k)
          [0..<length v]) = v ! i * w ! i" if "i < length v" for i
    using sum_list_delta [OF that, of "v ! i" "\<lambda>k. w ! k"] that by simp
  then show ?thesis
    using assms by (simp add: sp_matvec_def diags_def)
qed

lemma calc_dz_spec:
  assumes w: "wf_ret n_x n_eq n_ineq ret" and lz: "length z = n_ineq"
    and d: "calc_dz ret z dx = Inr dz"
  shows "dz = spec_dz (ret_H ret) z (ret_Hx ret) dx"
proof -
  from d obtain a b where
    a: "np_bin (-) (np_neg (ret_H ret)) z = Inr a"
    and b: "sp_matvec (sp_T (ret_Hx ret)) dx = Inr b"
    and c: "np_bin (-) a b = Inr dz"
    unfolding calc_dz_def by (elim ebindE)
  from b have ldx: "length dx = nrows (ret_Hx ret)"
    and bv: "b = map (\<lambda>i. sum_list (map (\<lambda>k. entry (ret_Hx ret) k i * dx ! k)
                              [0..<nrows (ret_Hx ret)])) [0..<ncols (ret_Hx ret)]"
    by (auto simp: sp_matvec_def sp_T_def split: if_splits)
  from w lz have lh: "length (np_neg (ret_H ret)) = length z"
    by (simp add: wf_ret_def np_neg_def)
  from a have av: "a = map2 (-) (np_neg (ret_H ret)) z"
    by (simp add: np_bin_same [OF lh])
  from w lz bv av lh have lab: "length a = length b"
    by (simp add: wf_ret_def)
  from c have dzv: "dz = map2 (-) a b"
    by (simp add: np_bin_same [OF lab])
  show ?thesis
  proof (rule nth_equalityI)
    show "length dz = length (spec_dz (ret_H ret) z (ret_Hx ret) dx)"
      using dzv lab av lh by (simp add: spec_dz_def)
  next
    fix i assume "i < length dz"
    with dzv lab av lh have i: "i < length z" by simp
    with w lz have ih: "i < length (ret_H ret)" "i < ncols (ret_Hx ret)"
      by (simp_all add: wf_ret_def)
    from i ih lab av lh show "dz ! i = spec_dz (ret_H ret) z (ret_Hx ret) dx ! i"
      unfolding dzv av bv spec_dz_def
      by (simp add: np_neg_def ldx)
  qed
qed


lemma fnum_times_value:
  assumes "n = 0 \<or> gamma = Fin g" and "fnum_times gamma (np_ones n) = Inr ge"
  shows "ge = replicate n (g * 1)"
  using assms by (cases gamma) (auto simp: np_ones_def split: if_splits)

lemma calc_dmu_spec:
  assumes lm: "length mu = n" and lz: "length z = n" and ldz: "length dz = n"
    and g: "n = 0 \<or> gamma = Fin g"
    and d: "calc_dmu mu (diags (map (\<lambda>a. 1 / a) z)) gamma (np_ones n) dz = Inr dmu"
  shows "dmu = spec_dmu mu z g dz"
proof -
  from d obtain ge m w v where
    ge: "fnum_times gamma (np_ones n) = Inr ge"
    and m: "np_bin (*) mu dz = Inr m"
    and w: "np_bin (-) ge m = Inr w"
    and v: "sp_matvec (diags (map (\<lambda>a. 1 / a) z)) w = Inr v"
    and r: "np_bin (+) (np_neg mu) v = Inr dmu"
    unfolding calc_dmu_def by (elim ebindE)
  from fnum_times_value [OF g ge] have gev: "ge = replicate n (g * 1)" .
  from m lm ldz have mv: "m = map2 (*) mu dz"
    by (simp add: np_bin_same)
  from w gev mv lm ldz have wv: "w = map2 (-) ge m"
    by (simp add: np_bin_same)
  from gev mv wv lm ldz lz have lw: "length w = length (map (\<lambda>a. 1 / a) z)"
    by simp
  from v have vv: "v = map (\<lambda>i. map (\<lambda>a. 1 / a) z ! i * w ! i) [0..<length z]"
    by (simp add: diags_matvec [OF lw])
  from r vv lm lz have dv: "dmu = map2 (+) (np_neg mu) v"
    by (simp add: np_bin_same np_neg_def)
  show ?thesis
  proof (rule nth_equalityI)
    show "length dmu = length (spec_dmu mu z g dz)"
      using dv vv lm lz by (simp add: spec_dmu_def np_neg_def)
  next
    fix i assume "i < length dmu"
    with dv vv lm lz have i: "i < n"
      by (simp add: np_neg_def)
    with lm lz ldz show "dmu ! i = spec_dmu mu z g dz ! i"
      unfolding dv vv wv mv gev spec_dmu_def
      by (simp add: np_neg_def)
  qed
qed

lemma np_iadd_spec:
  assumes "length dv = length v" and "np_iadd v (np_scale dv alpha) = Inr v'"
  shows "v' = spec_update v alpha dv"
proof -
  from assms have v': "v' = map2 (+) v (np_scale dv alpha)"
    by (simp add: np_iadd_same np_scale_def)
  show ?thesis
  proof (rule nth_equalityI)
    show "length v' = length (spec_update v alpha dv)"
      using assms(1) by (simp add: v' spec_update_def np_scale_def)
  next
    fix i assume "i < length v'"
    with assms(1) have "i < length v"
      by (simp add: v' np_scale_def)
    with assms(1) show "v' ! i = spec_update v alpha dv ! i"
      by (simp add: v' spec_update_def np_scale_def mult.commute)
  qed
qed

text \<open>
  C5. In an iteration, with the bundle \<open>ret\<close> of the evaluator and the increments
  \<open>dx\<close> and \<open>dlam\<close> split from the solution of the linear system, the code computes
  \<open>dz = -H - z - Hx\<^sup>T dx\<close> and \<open>dmu = -mu + diag(1/z) (gamma e - mu \<odot> dz)\<close> from the
  \<open>z\<close>, \<open>mu\<close> and \<open>gamma\<close> at the head of the loop, takes
  \<open>alpha_p = step_calculation(z, dz)\<close> and \<open>alpha_d = step_calculation(mu, dmu)\<close>, and
  updates \<open>x += alpha_p dx\<close>, \<open>z += alpha_p dz\<close>, \<open>lam += alpha_d dlam\<close> and
  \<open>mu += alpha_d dmu\<close>. The bundle has the documented shapes and the increments the
  lengths of \<open>x\<close> and \<open>lam\<close>.
\<close>

theorem newton_step_formulas:
  assumes i: "loop_inv n_ineq max_iter tol st"
    and n: "newton_step func spsolve n_x n_ineq tol st = Inr (st', dx, dz, dmu, dlam)"
    and f: "func (st_heap st ! st_x st) (st_mu st) (st_lam st) = Inr ret"
    and w: "wf_ret n_x n_eq n_ineq ret"
    and lx: "length dx = length (st_heap st ! st_x st)"
    and ll: "length dlam = length (st_lam st)"
  shows "\<exists>J r sol g alpha_p alpha_d.
           spsolve J r = Inr sol \<and> dx = take n_x sol \<and> dlam = drop n_x sol
           \<and> (0 < n_ineq \<longrightarrow> st_gamma st = Fin g)
           \<and> dz = spec_dz (ret_H ret) (st_z st) (ret_Hx ret) dx
           \<and> dmu = spec_dmu (st_mu st) (st_z st) g dz
           \<and> step_calculation (st_z st) dz = Inr alpha_p
           \<and> step_calculation (st_mu st) dmu = Inr alpha_d
           \<and> st_heap st' ! st_x st' = spec_update (st_heap st ! st_x st) alpha_p dx
           \<and> st_z st' = spec_update (st_z st) alpha_p dz
           \<and> st_lam st' = spec_update (st_lam st) alpha_d dlam
           \<and> st_mu st' = spec_update (st_mu st) alpha_d dmu"
proof (rule newton_stepE [OF n])
  fix ret' J r sol alpha_p alpha_d x' z' lam' mu' mz rz
  assume f': "func (st_heap st ! st_x st) (st_mu st) (st_lam st) = Inr ret'"
    and sv: "spsolve J r = Inr sol" "dx = take n_x sol" "dlam = drop n_x sol"
    and cz: "calc_dz ret' (st_z st) dx = Inr dz"
    and cm: "calc_dmu (st_mu st) (st_z_inv st) (st_gamma st) (np_ones n_ineq) dz = Inr dmu"
    and ap: "step_calculation (st_z st) dz = Inr alpha_p"
    and ad: "step_calculation (st_mu st) dmu = Inr alpha_d"
    and ux: "np_iadd (st_heap st ! st_x st) (np_scale dx alpha_p) = Inr x'"
    and uz: "np_iadd (st_z st) (np_scale dz alpha_p) = Inr z'"
    and ul: "np_iadd (st_lam st) (np_scale dlam alpha_d) = Inr lam'"
    and um: "np_iadd (st_mu st) (np_scale dmu alpha_d) = Inr mu'"
    and st': "st' = st\<lparr>st_heap := (st_heap st)[st_x st := x'],
              st_lam := lam', st_mu := mu', st_z := z',
              st_z_inv := diags rz, st_mu_diag := diags mu',
              st_gamma := py_max (np_true_divide (0.1 * mz) n_ineq) tol,
              st_error := calc_error dx dz dmu dlam,
              st_converged := le_fnum (calc_error dx dz dmu dlam)
                                (py_max (np_true_divide (0.1 * mz) n_ineq) tol),
              st_ret := Some ret'\<rparr>"
  from f f' have rr: "ret' = ret" by simp
  from i have lz: "length (st_z st) = n_ineq" and lm: "length (st_mu st) = n_ineq"
    and zi: "st_z_inv st = diags (map (\<lambda>a. 1 / a) (st_z st))"
    and xh: "st_x st < length (st_heap st)"
    by (simp_all add: loop_inv_def positive_state_def)
  from i obtain g where g: "n_ineq = 0 \<or> st_gamma st = Fin g"
    by (auto simp: loop_inv_def split: if_splits)
  have dzs: "dz = spec_dz (ret_H ret) (st_z st) (ret_Hx ret) dx"
    using calc_dz_spec [OF w lz] cz rr by simp
  then have ldz: "length dz = n_ineq"
    using lz by (simp add: spec_dz_def)
  have dms: "dmu = spec_dmu (st_mu st) (st_z st) g dz"
    using calc_dmu_spec [OF lm lz ldz g] cm zi by simp
  then have ldm: "length dmu = n_ineq"
    using lm by (simp add: spec_dmu_def)
  have "st_heap st' ! st_x st' = x'" "st_z st' = z'" "st_lam st' = lam'" "st_mu st' = mu'"
    using st' xh by simp_all
  with np_iadd_spec [OF lx ux] np_iadd_spec [OF _ uz] np_iadd_spec [OF ll ul]
    np_iadd_spec [OF _ um] ldz lz ldm lm
  have "st_heap st' ! st_x st' = spec_update (st_heap st ! st_x st) alpha_p dx"
    "st_z st' = spec_update (st_z st) alpha_p dz"
    "st_lam st' = spec_update (st_lam st) alpha_d dlam"
    "st_mu st' = spec_update (st_mu st) alpha_d dmu"
    by simp_all
  with sv g dzs dms ap ad show ?thesis
    by auto
qed


theorem newton_step_formulas_witness:
  "\<exists>st0 st' dx dz dmu dlam ret alpha_p alpha_d.
     ips_init [[0]] 0 0 1 1 = Inr st0
     \<and> loop_inv 1 1 (1 / 10 ^ 6) st0
     \<and> newton_step qp_ineq solve_1x1 1 1 (1 / 10 ^ 6) st0 = Inr (st', dx, dz, dmu, dlam)
     \<and> qp_ineq (st_heap st0 ! st_x st0) (st_mu st0) (st_lam st0) = Inr ret
     \<and> wf_ret 1 0 1 ret
     \<and> dx = [1] \<and> dlam = [] \<and> dz = [- 1] \<and> dmu = [1]
     \<and> dz = spec_dz (ret_H ret) (st_z st0) (ret_Hx ret) dx
     \<and> dmu = spec_dmu (st_mu st0) (st_z st0) 1 dz
     \<and> step_calculation (st_z st0) dz = Inr alpha_p
     \<and> step_calculation (st_mu st0) dmu = Inr alpha_d
     \<and> st_heap st' ! st_x st' = spec_update (st_heap st0 ! st_x st0) alpha_p dx
     \<and> st_z st' = spec_update (st_z st0) alpha_p dz
     \<and> st_lam st' = spec_update (st_lam st0) alpha_d dlam
     \<and> st_mu st' = spec_update (st_mu st0) alpha_d dmu"
proof -
  have "\<exists>st0 st' dx dz dmu dlam ret.
     ips_init [[0]] 0 0 1 1 = Inr st0
     \<and> newton_step qp_ineq solve_1x1 1 1 (1 / 10 ^ 6) st0 = Inr (st', dx, dz, dmu, dlam)
     \<and> qp_ineq (st_heap st0 ! st_x st0) (st_mu st0) (st_lam st0) = Inr ret
     \<and> wf_ret 1 0 1 ret \<and> st_gamma st0 = Fin 1
     \<and> length dx = length (st_heap st0 ! st_x st0) \<and> length dlam = length (st_lam st0)
     \<and> dx = [1] \<and> dlam = [] \<and> dz = [- 1] \<and> dmu = [1]"
    by (simp add: ips_init_nonneg ips_eval wf_ret_def)
  then obtain st0 st' dx dz dmu dlam ret where
    i: "ips_init [[0]] 0 0 1 1 = Inr st0"
    and n: "newton_step qp_ineq solve_1x1 1 1 (1 / 10 ^ 6) st0 = Inr (st', dx, dz, dmu, dlam)"
    and f: "qp_ineq (st_heap st0 ! st_x st0) (st_mu st0) (st_lam st0) = Inr ret"
    and w: "wf_ret 1 0 1 ret" and g: "st_gamma st0 = Fin 1"
    and l: "length dx = length (st_heap st0 ! st_x st0)" "length dlam = length (st_lam st0)"
    and v: "dx = [1]" "dlam = []" "dz = [- 1]" "dmu = [1]"
    by blast
  have inv: "loop_inv 1 1 (1 / 10 ^ 6) st0"
    using i by (rule ips_init_inv)
  from newton_step_formulas [OF inv n f w l] g
  obtain alpha_p alpha_d where
    "dz = spec_dz (ret_H ret) (st_z st0) (ret_Hx ret) dx"
    "dmu = spec_dmu (st_mu st0) (st_z st0) 1 dz"
    "step_calculation (st_z st0) dz = Inr alpha_p"
    "step_calculation (st_mu st0) dmu = Inr alpha_d"
    "st_heap st' ! st_x st' = spec_update (st_heap st0 ! st_x st0) alpha_p dx"
    "st_z st' = spec_update (st_z st0) alpha_p dz"
    "st_lam st' = spec_update (st_lam st0) alpha_d dlam"
    "st_mu st' = spec_update (st_mu st0) alpha_d dmu"
    by auto
  with i inv n f w v show ?thesis
    by blast
qed


section \<open>The real-valued model covers every run\<close>

text \<open>
  The error \<open>NonFinite\<close> marks where an infinity or NaN would enter an array and the
  model would stop short of the code. It is never the outcome of a call: \<open>1.0 / z\<close> is
  only taken of positive slacks, and a \<open>gamma\<close> that is not a real only multiplies the
  empty vector. (The evaluator and the solver, being parameters, must not return it
  either.)
\<close>

lemma representable_ebind:
  assumes "representable m" and "\<And>v. m = Inr v \<Longrightarrow> representable (k v)"
  shows "representable (ebind m k)"
  using assms by (cases m) (simp_all add: representable_def)

lemma representable_Inr [simp]: "representable (Inr v)"
  by (simp add: representable_def)

lemma representable_prims [simp]:
  "representable (sp_add A B)" "representable (sp_matmul A B)" "representable (sp_matvec A v)"
  "representable (pack_3_by_4 A B C)" "representable (np_bin f a b)"
  "representable (np_iadd a b)" "representable (np_dot a b)" "representable (py_setitem a i x)"
  by (simp_all add: representable_def sp_add_def sp_matmul_def sp_matvec_def pack_3_by_4_def
      np_bin_def np_iadd_def np_dot_def py_setitem_def Let_def)

lemma representable_step_loop: "representable (step_loop V dV js alpha)"
  by (induction js arbitrary: alpha) (simp_all add: representable_def)

lemma representable_step_calculation [simp]: "representable (step_calculation V dV)"
  unfolding step_calculation_def
  by (intro representable_ebind representable_step_loop representable_Inr)

lemma representable_fnum_times:
  assumes "n = 0 \<or> (\<exists>g. gamma = Fin g)"
  shows "representable (fnum_times gamma (np_ones n))"
  using fnum_times_ok [OF assms] by auto

lemma representable_compose_jacobian [simp]:
  "representable (compose_jacobian ret z_inv mu_diag)"
  unfolding compose_jacobian_def
  by (intro representable_ebind representable_prims)

lemma representable_compose_residual:
  assumes "n = 0 \<or> (\<exists>g. gamma = Fin g)"
  shows "representable (compose_residual ret z_inv gamma (np_ones n) mu lam)"
  unfolding compose_residual_def
  by (intro representable_ebind representable_prims representable_fnum_times [OF assms]
      representable_Inr)

lemma representable_calc_dz [simp]: "representable (calc_dz ret z dx)"
  unfolding calc_dz_def
  by (intro representable_ebind representable_prims)

lemma representable_calc_dmu:
  assumes "n = 0 \<or> (\<exists>g. gamma = Fin g)"
  shows "representable (calc_dmu mu z_inv gamma (np_ones n) dz)"
  unfolding calc_dmu_def
  by (intro representable_ebind representable_prims representable_fnum_times [OF assms])

lemma representable_newton_step:
  assumes i: "loop_inv n_ineq max_iter tol st"
    and f: "\<And>x mu lam. representable (func x mu lam)"
    and s: "\<And>J r. representable (spsolve J r)"
  shows "representable (newton_step func spsolve n_x n_ineq tol st)"
proof -
  from i have g: "n_ineq = 0 \<or> (\<exists>g. st_gamma st = Fin g)"
    by (auto simp: loop_inv_def split: if_splits)
  from i have pz: "\<forall>a\<in>set (st_z st). 0 < a"
    by (simp add: loop_inv_def positive_state_def list_all_iff)
  have rz: "representable (np_recip z')"
    if "step_calculation (st_z st) dz = Inr alpha_p"
      and "np_iadd (st_z st) (np_scale dz alpha_p) = Inr z'" for dz alpha_p z'
    using np_recip_positive [OF update_positive [OF pz that]] by simp
  show ?thesis
    unfolding newton_step_def Let_def
    by (intro representable_ebind f s representable_compose_jacobian
        representable_compose_residual [OF g] representable_calc_dz
        representable_calc_dmu [OF g] representable_step_calculation representable_prims
        representable_Inr rz)
qed


lemma representable_iteration_report [simp]:
  "representable (iteration_report verbose st dx dz dmu dlam)"
  by (simp add: iteration_report_def representable_def)

lemma representable_ips_iteration:
  assumes i: "loop_inv n_ineq max_iter tol (fst sp)"
    and f: "\<And>x mu lam. representable (func x mu lam)"
    and s: "\<And>J r. representable (spsolve J r)"
  shows "representable (ips_iteration func spsolve n_x n_ineq tol verbose sp)"
  unfolding ips_iteration_def
proof (rule representable_ebind)
  show "representable (newton_step func spsolve n_x n_ineq tol (fst sp))"
    using i f s by (rule representable_newton_step)
next
  fix v :: "ips_state \<times> vec \<times> vec \<times> vec \<times> vec"
  obtain st' dx dz dmu dlam where v: "v = (st', dx, dz, dmu, dlam)"
    by (cases v)
  show "representable
         (case v of
          (st', dx, dz, dmu, dlam) \<Rightarrow>
            ebind (iteration_report verbose st' dx dz dmu dlam)
             (\<lambda>printed.
                 ebind
                  (py_setitem (st_error_evolution st') (st_iter_counter st' + 1)
                    (st_error st'))
                  (\<lambda>ee. Inr (st'\<lparr>st_iter_counter := st_iter_counter st' + 1,
                                   st_error_evolution := ee\<rparr>,
                              snd sp @ printed))))"
    unfolding v prod.case
    by (intro representable_ebind representable_iteration_report representable_prims
        representable_Inr)
qed

lemma representable_ips_loop:
  assumes "loop_inv n_ineq max_iter tol (fst sp)"
    and "\<And>x mu lam. representable (func x mu lam)"
    and "\<And>J r. representable (spsolve J r)"
  shows "representable (ips_loop func spsolve n_x n_ineq max_iter tol verbose sp)"
  using assms
proof (induction func spsolve n_x n_ineq max_iter tol verbose sp rule: ips_loop.induct)
  case (1 func spsolve n_x n_ineq max_iter tol verbose sp)
  show ?case
  proof (cases "\<not> st_converged (fst sp) \<and> st_iter_counter (fst sp) < max_iter")
    case False
    then have "st_converged (fst sp) \<or> max_iter \<le> st_iter_counter (fst sp)"
      by auto
    from ips_loop_exit [OF this] show ?thesis
      by simp
  next
    case True
    then have c: "\<not> st_converged (fst sp)" "st_iter_counter (fst sp) < max_iter"
      by simp_all
    have it: "representable (ips_iteration func spsolve n_x n_ineq tol verbose sp)"
      using "1.prems" by (rule representable_ips_iteration)
    show ?thesis
    proof (cases "ips_iteration func spsolve n_x n_ineq tol verbose sp")
      case (Inl e)
      with it show ?thesis
        by (simp add: ips_loop_enter [OF c] representable_def)
    next
      case (Inr sp1)
      from ips_iteration_inv [OF "1.prems"(1) c(2) Inr]
      have "loop_inv n_ineq max_iter tol (fst sp1)" .
      from "1.IH" [OF True Inr this "1.prems"(2,3)] Inr show ?thesis
        by (simp add: ips_loop_enter [OF c])
    qed
  qed
qed

lemma interior_point_solver_representable:
  assumes f: "\<And>x mu lam. representable (func x mu lam)"
    and s: "\<And>J r. representable (spsolve J r)"
  shows "interior_point_solver heap x0 n_x n_eq n_ineq func spsolve max_iter tol verbose
         \<noteq> Inl NonFinite"
proof (cases "ips_init heap x0 n_eq n_ineq max_iter")
  case (Inl e)
  then have "max_iter < 0"
    using ips_init_nonneg [of max_iter heap x0 n_eq n_ineq] by (cases "0 \<le> max_iter") simp_all
  from ips_init_negative [OF this, of heap x0 n_eq n_ineq] show ?thesis
    by (simp add: interior_point_solver_def)
next
  case (Inr st0)
  have "loop_inv n_ineq max_iter tol (fst (st0, []))"
    using ips_init_inv [OF Inr] by simp
  from representable_ips_loop [OF this f s, where n_x = n_x and verbose = verbose]
  show ?thesis
    unfolding interior_point_solver_def Inr
    by (cases "ips_loop func spsolve n_x n_ineq max_iter tol verbose (st0, [])")
      (auto simp: representable_def Let_def split: option.splits)
qed


section \<open>Exceptions of the linear solve\<close>

text \<open>
  \<open>interior_point_solver\<close> has no handler around \<open>spsolve\<close>: an exception of the
  solver in an iteration ends the iteration with that exception, and in the first
  iteration it ends the call with it.
\<close>

lemma spsolve_error_propagates:
  assumes "func (st_heap st ! st_x st) (st_mu st) (st_lam st) = Inr ret"
    and "compose_jacobian ret (st_z_inv st) (st_mu_diag st) = Inr J"
    and "compose_residual ret (st_z_inv st) (st_gamma st) (np_ones n_ineq) (st_mu st) (st_lam st)
         = Inr r"
    and "spsolve J r = Inl e"
  shows "ips_iteration func spsolve n_x n_ineq tol verbose (st, out) = Inl e"
  using assms by (simp add: ips_iteration_def newton_step_def)

lemma first_iteration_error_propagates:
  assumes "1 \<le> max_iter"
    and "ips_init heap x0 n_eq n_ineq max_iter = Inr st0"
    and "ips_iteration func spsolve n_x n_ineq tol verbose (st0, []) = Inl e"
  shows "interior_point_solver heap x0 n_x n_eq n_ineq func spsolve max_iter tol verbose = Inl e"
proof -
  from assms(1) have "0 \<le> max_iter" by simp
  from ips_init_nonneg [OF this, of heap x0 n_eq n_ineq] assms(2)
  have c: "\<not> st_converged (fst (st0, []))" "st_iter_counter (fst (st0, [])) < max_iter"
    using assms(1) by auto
  from assms(2,3) show ?thesis
    by (simp add: interior_point_solver_def ips_loop_enter [OF c])
qed

end
